theory Spec2Isabelle
  imports Complex_Main "HOL-Library.Multiset"
begin

section \<open>The package-metadata resolution of \<^verbatim>\<open>src/services/npmService.ts\<close>\<close>

text \<open>
  The service exports \<^verbatim>\<open>fetchPackageDownloads\<close> and \<^verbatim>\<open>fetchPackageData\<close>. Both are
  asynchronous functions whose only effects are two network requests and console output.
  They are embedded as pure functions of a \<open>host\<close> value that says what each request
  yields; a rejected promise or a thrown \<^verbatim>\<open>Error\<close> is the left summand of the result.
  Console output is left out.

  Strings are \<open>char list\<close>; a \<open>char\<close> stands for a code unit below 256. The JSON
  documents are typed as \<^verbatim>\<open>src/types.ts\<close> declares them, an optional field as an
  \<open>option\<close>. Reading a dictionary at a computed key (\<^verbatim>\<open>data.versions[versionToFetch]\<close>,
  \<^verbatim>\<open>data.time[versionToFetch]\<close>) finds the own keys of the dictionary and, failing
  those, what every object inherits from \<^verbatim>\<open>Object.prototype\<close>.
\<close>

subsection \<open>String functions of the language\<close>

definition dq :: char where
  "dq = CHR 0x22"

definition is_space :: "char \<Rightarrow> bool" where
  \<comment> \<open>white space and line terminators below 256: TAB, LF, VT, FF, CR, SP, NBSP\<close>
  "is_space c = ((of_char c :: nat) \<in> {9, 10, 11, 12, 13, 32, 160})"

definition trim :: "string \<Rightarrow> string" where
  \<comment> \<open>\<^verbatim>\<open>String.prototype.trim\<close>\<close>
  "trim s = rev (dropWhile is_space (rev (dropWhile is_space s)))"

definition startsWith :: "string \<Rightarrow> string \<Rightarrow> bool" where
  "startsWith p s = (take (length p) s = p)"

definition endsWith :: "string \<Rightarrow> string \<Rightarrow> bool" where
  "endsWith p s = (length p \<le> length s \<and> drop (length s - length p) s = p)"

definition truthy :: "string option \<Rightarrow> bool" where
  \<comment> \<open>a string-or-undefined value in a condition: \<^verbatim>\<open>undefined\<close> and \<^verbatim>\<open>""\<close> are falsy\<close>
  "truthy v = (case v of None \<Rightarrow> False | Some s \<Rightarrow> s \<noteq> [])"

definition js_or :: "string option \<Rightarrow> string option \<Rightarrow> string option" where
  \<comment> \<open>\<^verbatim>\<open>a || b\<close>\<close>
  "js_or a b = (if truthy a then a else b)"

fun split_str :: "char \<Rightarrow> string \<Rightarrow> string list" where
  \<comment> \<open>\<^verbatim>\<open>s.split(d)\<close> for a one-character separator: never empty, \<^verbatim>\<open>"".split('.')\<close> is \<^verbatim>\<open>[""]\<close>\<close>
  "split_str d [] = [[]]"
| "split_str d (c # cs) =
     (if c = d then [] # split_str d cs
      else (case split_str d cs of [] \<Rightarrow> [[c]] | p # ps \<Rightarrow> (c # p) # ps))"

subsection \<open>Numbers and the conversion \<^verbatim>\<open>Number(string)\<close>\<close>

text \<open>
  A Number value is \<open>NaN\<close>, an infinity or a finite value; the two zeros are one value
  \<open>Fin 0\<close> (they are equal under \<^verbatim>\<open>!==\<close> and both falsy). \<^verbatim>\<open>Number\<close> applied to a
  string trims it, reads the empty string as 0, and otherwise accepts exactly one numeric
  literal: a binary, octal or hexadecimal integer (\<^verbatim>\<open>0b\<close>, \<^verbatim>\<open>0o\<close>, \<^verbatim>\<open>0x\<close>, unsigned),
  or an optionally signed \<^verbatim>\<open>Infinity\<close> or decimal literal with optional fraction and
  exponent. Anything else is \<open>NaN\<close>. The exact value of the literal is then rounded to a
  double; that rounding is the parameter \<open>rnd\<close>, supplied by the host.
\<close>

datatype number = NaN | NegInf | Fin rat | PosInf

definition is_digit :: "char \<Rightarrow> bool" where
  "is_digit c = (48 \<le> (of_char c :: nat) \<and> (of_char c :: nat) \<le> 57)"

definition digit_val :: "char \<Rightarrow> nat" where
  \<comment> \<open>value of a digit character in any radix up to 16; 16 for any other character\<close>
  "digit_val c =
     (let n = (of_char c :: nat) in
      if 48 \<le> n \<and> n \<le> 57 then n - 48
      else if 97 \<le> n \<and> n \<le> 102 then n - 87
      else if 65 \<le> n \<and> n \<le> 70 then n - 55
      else 16)"

definition digits_val :: "nat \<Rightarrow> string \<Rightarrow> nat" where
  "digits_val b s = foldl (\<lambda>acc c. acc * b + digit_val c) 0 s"

definition radix_digits :: "nat \<Rightarrow> string \<Rightarrow> bool" where
  \<comment> \<open>one or more digits of radix \<open>b\<close>\<close>
  "radix_digits b s = (s \<noteq> [] \<and> list_all (\<lambda>c. digit_val c < b) s)"

definition pow10 :: "int \<Rightarrow> rat" where
  "pow10 e = (if 0 \<le> e then 10 ^ nat e else 1 / 10 ^ nat (- e))"

definition split_sign :: "string \<Rightarrow> bool \<times> string" where
  \<comment> \<open>an optional leading \<^verbatim>\<open>+\<close> or \<^verbatim>\<open>-\<close>; the flag says the sign is negative\<close>
  "split_sign s =
     (case s of
        [] \<Rightarrow> (False, [])
      | c # r \<Rightarrow> if c = CHR ''-'' then (True, r) else if c = CHR ''+'' then (False, r) else (False, s))"

definition exponent_part :: "string \<Rightarrow> int option" where
  \<comment> \<open>the rest of a decimal literal after its digits: nothing, or \<^verbatim>\<open>e\<close>/\<^verbatim>\<open>E\<close>, an optional sign and digits\<close>
  "exponent_part s =
     (case s of
        [] \<Rightarrow> Some 0
      | c # r \<Rightarrow>
          if c = CHR ''e'' \<or> c = CHR ''E'' then
            (let (neg, ds) = split_sign r in
             if radix_digits 10 ds
             then Some (if neg then - int (digits_val 10 ds) else int (digits_val 10 ds))
             else None)
          else None)"

definition unsigned_decimal :: "string \<Rightarrow> rat option" where
  \<comment> \<open>exact value of an unsigned decimal literal: digits, optional \<^verbatim>\<open>.\<close> and digits (at least one
      digit in all), optional exponent\<close>
  "unsigned_decimal s =
     (let ip = takeWhile is_digit s;
          r1 = dropWhile is_digit s;
          (fp, r2) = (case r1 of
                        [] \<Rightarrow> ([], [])
                      | c # r \<Rightarrow> if c = CHR ''.'' then (takeWhile is_digit r, dropWhile is_digit r)
                                else ([], r1))
      in if ip = [] \<and> fp = [] then None
         else (case exponent_part r2 of
                 None \<Rightarrow> None
               | Some e \<Rightarrow>
                   Some ((of_nat (digits_val 10 ip) + of_nat (digits_val 10 fp) / 10 ^ length fp)
                         * pow10 e)))"

definition radix_literal :: "string \<Rightarrow> nat option" where
  \<comment> \<open>\<^verbatim>\<open>0b\<close>/\<^verbatim>\<open>0o\<close>/\<^verbatim>\<open>0x\<close> integer literals, the prefix letter in either case\<close>
  "radix_literal s =
     (case s of
        z # p # ds \<Rightarrow>
          if z \<noteq> CHR ''0'' then None
          else if (p = CHR ''x'' \<or> p = CHR ''X'') \<and> radix_digits 16 ds then Some (digits_val 16 ds)
          else if (p = CHR ''o'' \<or> p = CHR ''O'') \<and> radix_digits 8 ds then Some (digits_val 8 ds)
          else if (p = CHR ''b'' \<or> p = CHR ''B'') \<and> radix_digits 2 ds then Some (digits_val 2 ds)
          else None
      | _ \<Rightarrow> None)"

definition Number :: "(rat \<Rightarrow> number) \<Rightarrow> string \<Rightarrow> number" where
  "Number rnd str =
     (let s = trim str in
      if s = [] then Fin 0
      else (case radix_literal s of
              Some n \<Rightarrow> rnd (of_nat n)
            | None \<Rightarrow>
                (let (neg, u) = split_sign s in
                 if u = ''Infinity'' then (if neg then NegInf else PosInf)
                 else (case unsigned_decimal u of
                         None \<Rightarrow> NaN
                       | Some q \<Rightarrow> rnd (if neg then - q else q)))))"

fun num_less :: "number \<Rightarrow> number \<Rightarrow> bool" where
  \<comment> \<open>\<^verbatim>\<open>a < b\<close> on Number values; false whenever an operand is \<open>NaN\<close>\<close>
  "num_less NaN _ = False"
| "num_less _ NaN = False"
| "num_less _ NegInf = False"
| "num_less NegInf _ = True"
| "num_less PosInf _ = False"
| "num_less (Fin _) PosInf = True"
| "num_less (Fin p) (Fin q) = (p < q)"

subsection \<open>The version comparator and \<^verbatim>\<open>Array.prototype.sort\<close>\<close>

definition orZero :: "number option \<Rightarrow> number" where
  \<comment> \<open>\<^verbatim>\<open>aParts[i] || 0\<close>: \<open>None\<close> is the read beyond the end of the array (\<^verbatim>\<open>undefined\<close>);
      \<^verbatim>\<open>undefined\<close>, \<open>NaN\<close> and 0 are falsy\<close>
  "orZero v = (case v of None \<Rightarrow> Fin 0 | Some NaN \<Rightarrow> Fin 0 | Some n \<Rightarrow> n)"

definition diff_sign :: "number \<Rightarrow> number \<Rightarrow> int" where
  \<comment> \<open>the sign of \<^verbatim>\<open>bNum - aNum\<close>, which is all the sort reads of the comparator's result;
      on two distinct doubles the difference is never zero\<close>
  "diff_sign bNum aNum = (if num_less aNum bNum then 1 else if num_less bNum aNum then - 1 else 0)"

definition step :: "number \<Rightarrow> number \<Rightarrow> int \<Rightarrow> int" where
  \<comment> \<open>one round of the comparator's loop; \<open>rest\<close> is what the remaining rounds return\<close>
  "step aNum bNum rest = (if aNum \<noteq> bNum then diff_sign bNum aNum else rest)"

fun compareParts :: "number list \<Rightarrow> number list \<Rightarrow> int" where
  \<comment> \<open>the loop \<^verbatim>\<open>for (i = 0; i < Math.max(aParts.length, bParts.length); i++)\<close>\<close>
  "compareParts [] [] = 0"
| "compareParts (a # as) [] = step (orZero (Some a)) (orZero None) (compareParts as [])"
| "compareParts [] (b # bs) = step (orZero None) (orZero (Some b)) (compareParts [] bs)"
| "compareParts (a # as) (b # bs) = step (orZero (Some a)) (orZero (Some b)) (compareParts as bs)"

definition parts :: "(rat \<Rightarrow> number) \<Rightarrow> string \<Rightarrow> number list" where
  \<comment> \<open>\<^verbatim>\<open>a.split('.').map(Number)\<close>\<close>
  "parts rnd a = map (Number rnd) (split_str (CHR ''.'') a)"

definition compareVersions :: "(rat \<Rightarrow> number) \<Rightarrow> string \<Rightarrow> string \<Rightarrow> int" where
  \<comment> \<open>the comparator passed to \<^verbatim>\<open>sort\<close>\<close>
  "compareVersions rnd a b = compareParts (parts rnd a) (parts rnd b)"

definition part_or_zero :: "number list \<Rightarrow> nat \<Rightarrow> number" where
  \<comment> \<open>the expression \<^verbatim>\<open>aParts[i] || 0\<close> at position \<open>i\<close>\<close>
  "part_or_zero ps i = orZero (if i < length ps then Some (ps ! i) else None)"

definition precedes :: "(nat \<Rightarrow> number) \<Rightarrow> (nat \<Rightarrow> number) \<Rightarrow> bool" where
  \<comment> \<open>\<open>f\<close> is greater than \<open>g\<close> at the first position where they differ\<close>
  "precedes f g = (\<exists>i. (\<forall>j<i. f j = g j) \<and> num_less (g i) (f i))"

text \<open>
  \<^verbatim>\<open>Array.prototype.sort\<close> is stable, and for a consistent comparator it returns the
  sorted arrangement of the array, whatever algorithm the engine runs. That arrangement is
  computed here by insertion: an element goes in front of the first later element that
  it does not have to follow. Lemma \<open>compareVersions_consistent\<close> below shows that the
  comparator of this program is consistent, and lemma \<open>array_sort_versions_unique\<close> that
  every sorted arrangement that keeps ties in their order is the one computed here.
\<close>

fun insert_by :: "('a \<Rightarrow> 'a \<Rightarrow> int) \<Rightarrow> 'a \<Rightarrow> 'a list \<Rightarrow> 'a list" where
  "insert_by cmp x [] = [x]"
| "insert_by cmp x (y # ys) = (if cmp x y \<le> 0 then x # y # ys else y # insert_by cmp x ys)"

fun array_sort :: "('a \<Rightarrow> 'a \<Rightarrow> int) \<Rightarrow> 'a list \<Rightarrow> 'a list" where
  "array_sort cmp [] = []"
| "array_sort cmp (x # xs) = insert_by cmp x (array_sort cmp xs)"

subsection \<open>The documents of \<^verbatim>\<open>src/types.ts\<close>\<close>

record repository_info =
  repo_type :: string
  url :: string

datatype author_field =
    AuthorString string
  | AuthorObject (author_name: string) (author_email: "string option") (author_url: "string option")

record maintainer =
  maintainer_name :: string
  maintainer_email :: string

record version_data =
  v_name :: string
  v_version :: string
  v_description :: "string option"
  v_license :: "string option"
  v_author :: "author_field option"
  v_dependencies :: "(string \<times> string) list option"
  v_devDependencies :: "(string \<times> string) list option"
  v_homepage :: "string option"
  v_repository :: "repository_info option"

text \<open>
  \<open>versions\<close> and \<open>time\<close> are objects used as dictionaries. They are association lists of
  their own keys, in the order in which the object enumerates them, which is the order of
  \<^verbatim>\<open>Object.keys\<close>. \<open>dist_tags_latest\<close> is \<^verbatim>\<open>data['dist-tags']?.latest\<close>, \<open>None\<close> when
  either level is missing.
\<close>

record NpmRegistryResponse =
  r_name :: string
  dist_tags_latest :: "string option"
  versions :: "(string \<times> version_data) list"
  time :: "(string \<times> string) list"
  r_maintainers :: "maintainer list"
  r_homepage :: "string option"
  r_repository :: "repository_info option"

record NpmDownloadsResponse =
  downloads :: int
  start :: string
  end_date :: string
  package :: string

text \<open>
  In the result, \<open>name\<close> and \<open>version\<close> are copied from whatever
  \<^verbatim>\<open>data.versions[versionToFetch]\<close> is. A record of the document has both; an inherited
  value need not, so both are optional here.
\<close>

record NpmPackageData =
  name :: "string option"
  version :: "string option"
  description :: "string option"
  license :: "string option"
  author :: "string option"
  dependencies :: "(string \<times> string) list option"
  devDependencies :: "(string \<times> string) list option"
  homepage :: "string option"
  repository :: "string option"
  npmUrl :: string
  publishedDate :: "string option"
  maintainers :: "maintainer list option"
  downloadsLastWeek :: "int option"

record PackageDetailsResponse =
  packageData :: NpmPackageData
  allVersions :: "string list"

subsection \<open>Reading a property at a computed key\<close>

text \<open>
  \<^verbatim>\<open>obj[k]\<close> is the own property \<open>k\<close> of \<open>obj\<close> when there is one, else what \<open>obj\<close>
  inherits under \<open>k\<close>, else \<^verbatim>\<open>undefined\<close>. An object that \<^verbatim>\<open>JSON.parse\<close> built inherits
  from \<^verbatim>\<open>Object.prototype\<close>, whose properties are the names below. Each is listed with
  the \<^verbatim>\<open>name\<close> property of the value found under it: the value is a function, whose
  \<^verbatim>\<open>name\<close> is its own name, except under \<^verbatim>\<open>__proto__\<close>, where it is the prototype object
  itself, which has no \<^verbatim>\<open>name\<close>. All these values are truthy, and none has any other
  of the properties that \<^verbatim>\<open>fetchPackageData\<close> reads of a version record.
\<close>

definition object_prototype :: "(string \<times> string option) list" where
  "object_prototype =
     [(''constructor'', Some ''Object''),
      (''__defineGetter__'', Some ''__defineGetter__''),
      (''__defineSetter__'', Some ''__defineSetter__''),
      (''hasOwnProperty'', Some ''hasOwnProperty''),
      (''__lookupGetter__'', Some ''__lookupGetter__''),
      (''__lookupSetter__'', Some ''__lookupSetter__''),
      (''isPrototypeOf'', Some ''isPrototypeOf''),
      (''propertyIsEnumerable'', Some ''propertyIsEnumerable''),
      (''toString'', Some ''toString''),
      (''valueOf'', Some ''valueOf''),
      (''__proto__'', None),
      (''toLocaleString'', Some ''toLocaleString'')]"

definition inherits :: "string \<Rightarrow> bool" where
  \<comment> \<open>\<open>k\<close> is a property of \<^verbatim>\<open>Object.prototype\<close>\<close>
  "inherits k = (k \<in> set (map fst object_prototype))"

datatype 'a property = Own 'a | Inherited string

definition get_property :: "(string \<times> 'a) list \<Rightarrow> string \<Rightarrow> 'a property option" where
  \<comment> \<open>\<^verbatim>\<open>obj[k]\<close>; \<open>None\<close> is \<^verbatim>\<open>undefined\<close>, \<open>Inherited k\<close> is the value that
      \<^verbatim>\<open>Object.prototype\<close> has under \<open>k\<close>\<close>
  "get_property obj k =
     (case map_of obj k of
        Some v \<Rightarrow> Some (Own v)
      | None \<Rightarrow> if inherits k then Some (Inherited k) else None)"

definition read_field :: "(version_data \<Rightarrow> 'a option) \<Rightarrow> version_data property \<Rightarrow> 'a option" where
  \<comment> \<open>\<^verbatim>\<open>versionData.f\<close> for a field \<open>f\<close> of the record; an inherited value has none of them\<close>
  "read_field f versionData = (case versionData of Own vd \<Rightarrow> f vd | Inherited k \<Rightarrow> None)"

definition read_name :: "version_data property \<Rightarrow> string option" where
  \<comment> \<open>\<^verbatim>\<open>versionData.name\<close>\<close>
  "read_name versionData =
     (case versionData of
        Own vd \<Rightarrow> Some (v_name vd)
      | Inherited k \<Rightarrow> (case map_of object_prototype k of Some n \<Rightarrow> n | None \<Rightarrow> None))"

subsection \<open>The host: network and locale\<close>

text \<open>
  \<^verbatim>\<open>fetch(url)\<close> either rejects (no response at all) or resolves with a response that
  has a status, a status text and a body; \<^verbatim>\<open>response.json()\<close> either rejects (the body
  is not JSON) or gives the document. The message of a rejection is the left summand. The
  document has the type that \<^verbatim>\<open>src/types.ts\<close> declares for it; a body that is JSON of
  another shape is outside this model.
\<close>

datatype 'a response = Response (status: nat) (statusText: string) (json: "string + 'a")

definition ok :: "'a response \<Rightarrow> bool" where
  "ok r = (200 \<le> status r \<and> status r \<le> 299)"

record host =
  fetch_registry :: "string \<Rightarrow> string + NpmRegistryResponse response"
  fetch_downloads :: "string \<Rightarrow> string + NpmDownloadsResponse response"
  toDouble :: "rat \<Rightarrow> number"
  toLocaleDateString :: "string property \<Rightarrow> string"

text \<open>
  \<open>toDouble\<close> is the rounding of an exact value to a double. \<open>toLocaleDateString\<close> is
  \<^verbatim>\<open>new Date(raw).toLocaleDateString('en-GB', {year: 'numeric', month: '2-digit', day: '2-digit'})\<close>,
  for \<open>raw\<close> a string of the document or a value inherited from \<^verbatim>\<open>Object.prototype\<close>.
\<close>

datatype failure =
    NotFound string
  | TransportError string
  | NoLatestTag string
  | VersionNotFound string
  | Rejected string

text \<open>
  The first four are the four \<^verbatim>\<open>throw new Error(...)\<close> of \<^verbatim>\<open>fetchPackageData\<close>, in the
  order of the source, each with its message. \<open>Rejected\<close> is a rejection of \<^verbatim>\<open>fetch\<close> or
  of \<^verbatim>\<open>response.json()\<close>, which the \<^verbatim>\<open>catch\<close> block throws again unchanged.
\<close>

subsection \<open>The regular expressions of the author extraction\<close>

definition nameMatch :: "string \<Rightarrow> string option" where
  \<comment> \<open>group 1 of \<^verbatim>\<open>s.match(/^([^<]+)/)\<close>: the longest prefix free of \<^verbatim>\<open><\<close>, which must not be
      empty; \<open>None\<close> is the \<^verbatim>\<open>null\<close> of a failed match\<close>
  "nameMatch s = (let m = takeWhile (\<lambda>c. c \<noteq> CHR ''<'') s in if m = [] then None else Some m)"

definition cleanedRepoUrl :: "string \<Rightarrow> string" where
  \<comment> \<open>\<^verbatim>\<open>repoUrl.replace(/^git\+/, '').replace(/\.git$/, '')\<close>\<close>
  "cleanedRepoUrl repoUrl =
     (let s = (if startsWith ''git+'' repoUrl then drop 4 repoUrl else repoUrl)
      in if endsWith ''.git'' s then take (length s - 4) s else s)"

definition githubMatchAt :: "string \<Rightarrow> string option" where
  \<comment> \<open>\<^verbatim>\<open>/github\.com\/([^/]+)\/[^/]+/\<close> tried at the start of \<open>s\<close>: group 1 is the whole run of
      characters up to the next \<^verbatim>\<open>/\<close>, since a shorter run is not followed by \<^verbatim>\<open>/\<close>\<close>
  "githubMatchAt s =
     (if startsWith ''github.com/'' s then
        (let r = drop 11 s;
             owner = takeWhile (\<lambda>c. c \<noteq> CHR ''/'') r
         in case dropWhile (\<lambda>c. c \<noteq> CHR ''/'') r of
              slash # c # _ \<Rightarrow> if owner \<noteq> [] \<and> c \<noteq> CHR ''/'' then Some owner else None
            | _ \<Rightarrow> None)
      else None)"

fun githubMatch :: "string \<Rightarrow> string option" where
  \<comment> \<open>group 1 of \<^verbatim>\<open>s.match(/github\.com\/([^/]+)\/[^/]+/)\<close>: the match at the leftmost position
      that has one\<close>
  "githubMatch [] = None"
| "githubMatch (c # cs) =
     (case githubMatchAt (c # cs) of Some owner \<Rightarrow> Some owner | None \<Rightarrow> githubMatch cs)"

subsection \<open>\<^verbatim>\<open>fetchPackageDownloads\<close>\<close>

definition downloads_try :: "host \<Rightarrow> string \<Rightarrow> string + int option" where
  \<comment> \<open>the \<^verbatim>\<open>try\<close> block; \<open>Inl\<close> is what it throws, \<open>Inr None\<close> is \<^verbatim>\<open>return undefined\<close>\<close>
  "downloads_try h packageName =
     (case fetch_downloads h (''https://api.npmjs.org/downloads/point/last-week/'' @ packageName) of
        Inl m \<Rightarrow> Inl m
      | Inr response \<Rightarrow>
          if \<not> ok response then
            (if status response = 404 then Inr None
             else Inl (''Failed to fetch download data: '' @ statusText response))
          else (case json response of
                  Inl m \<Rightarrow> Inl m
                | Inr data \<Rightarrow> Inr (Some (downloads data))))"

definition fetchPackageDownloads :: "host \<Rightarrow> string \<Rightarrow> int option" where
  \<comment> \<open>the \<^verbatim>\<open>catch\<close> block returns \<^verbatim>\<open>undefined\<close> on any error\<close>
  "fetchPackageDownloads h packageName =
     (case downloads_try h packageName of Inl e \<Rightarrow> None | Inr r \<Rightarrow> r)"

subsection \<open>\<^verbatim>\<open>fetchPackageData\<close>\<close>

definition authorFromField :: "author_field option \<Rightarrow> string option" where
  \<comment> \<open>step 1 of the author extraction, \<^verbatim>\<open>if (versionData.author) { ... }\<close>; the result is the
      variable \<^verbatim>\<open>author\<close>, \<open>None\<close> while it is still \<^verbatim>\<open>undefined\<close>\<close>
  "authorFromField a =
     (case a of
        None \<Rightarrow> None
      | Some (AuthorObject n e u) \<Rightarrow> if n \<noteq> [] then Some n else None
      | Some (AuthorString s) \<Rightarrow>
          if s = [] then None
          else (case nameMatch s of Some m \<Rightarrow> Some (trim m) | None \<Rightarrow> Some s))"

definition authorFromRepo :: "string option \<Rightarrow> string option \<Rightarrow> string option" where
  \<comment> \<open>step 2, \<^verbatim>\<open>if (!author && repoUrl) { ... }\<close>, from the value of \<^verbatim>\<open>author\<close> after step 1\<close>
  "authorFromRepo found repoUrl =
     (case repoUrl of
        None \<Rightarrow> found
      | Some u \<Rightarrow>
          if \<not> truthy found \<and> u \<noteq> [] then
            (case githubMatch (cleanedRepoUrl u) of
               Some owner \<Rightarrow> if owner \<noteq> [] then Some owner else found
             | None \<Rightarrow> found)
          else found)"

definition fetchDocument :: "host \<Rightarrow> string \<Rightarrow> failure + NpmRegistryResponse" where
  \<comment> \<open>the request of the registry document, up to \<^verbatim>\<open>const data = await response.json()\<close>\<close>
  "fetchDocument h packageName =
     (case fetch_registry h (''https://registry.npmjs.org/'' @ packageName) of
        Inl m \<Rightarrow> Inl (Rejected m)
      | Inr response \<Rightarrow>
          if \<not> ok response then
            (if status response = 404
             then Inl (NotFound (''Package '' @ [dq] @ packageName @ [dq] @ '' not found.''))
             else Inl (TransportError (''Failed to fetch package data: '' @ statusText response)))
          else (case json response of
                  Inl m \<Rightarrow> Inl (Rejected m)
                | Inr data \<Rightarrow> Inr data))"

definition versionToFetch :: "string \<Rightarrow> string option \<Rightarrow> string" where
  \<comment> \<open>\<^verbatim>\<open>version || latestVersion\<close>, for the optional parameter \<^verbatim>\<open>version\<close>: the latest version
      when the parameter is \<^verbatim>\<open>undefined\<close> or empty\<close>
  "versionToFetch latestVersion requested =
     (case requested of None \<Rightarrow> latestVersion | Some v \<Rightarrow> if v = [] then latestVersion else v)"

definition fetchPackageData :: "host \<Rightarrow> string \<Rightarrow> string option \<Rightarrow> failure + PackageDetailsResponse" where
  "fetchPackageData h packageName requested =
     (case fetchDocument h packageName of
        Inl e \<Rightarrow> Inl e
      | Inr data \<Rightarrow>
          (case dist_tags_latest data of
             None \<Rightarrow>
               Inl (NoLatestTag (''Could not determine latest version for package '' @ [dq]
                                  @ packageName @ [dq] @ ''.''))
           | Some latestVersion \<Rightarrow>
               if latestVersion = [] then
                 Inl (NoLatestTag (''Could not determine latest version for package '' @ [dq]
                                    @ packageName @ [dq] @ ''.''))
               else
                 (case get_property (versions data) (versionToFetch latestVersion requested) of
                    None \<Rightarrow>
                      Inl (VersionNotFound (''Could not find data for version '' @ [dq]
                             @ versionToFetch latestVersion requested @ [dq] @ '' of package ''
                             @ [dq] @ packageName @ [dq] @ ''.''))
                  | Some versionData \<Rightarrow>
                      (let repoUrl = js_or (map_option url (read_field v_repository versionData))
                                           (map_option url (r_repository data));
                           homepageUrl = js_or (read_field v_homepage versionData) (r_homepage data);
                           found = authorFromRepo (authorFromField (read_field v_author versionData))
                                                  repoUrl;
                           published =
                             (case get_property (time data)
                                     (versionToFetch latestVersion requested) of
                                None \<Rightarrow> None
                              | Some (Own raw) \<Rightarrow> if raw = [] then None
                                                  else Some (toLocaleDateString h (Own raw))
                              | Some (Inherited k) \<Rightarrow> Some (toLocaleDateString h (Inherited k)));
                           sorted = array_sort (compareVersions (toDouble h))
                                               (map fst (versions data));
                           weekly = fetchPackageDownloads h packageName
                       in Inr \<lparr>packageData =
                                 \<lparr>name = read_name versionData,
                                  version = read_field (\<lambda>vd. Some (v_version vd)) versionData,
                                  description = read_field v_description versionData,
                                  license = read_field v_license versionData,
                                  author = js_or found (Some ''N/A''),
                                  dependencies = read_field v_dependencies versionData,
                                  devDependencies = read_field v_devDependencies versionData,
                                  homepage = homepageUrl,
                                  repository = repoUrl,
                                  npmUrl = ''https://www.npmjs.com/package/'' @ packageName,
                                  publishedDate = published,
                                  maintainers = Some (r_maintainers data),
                                  downloadsLastWeek = weekly\<rparr>,
                               allVersions = sorted\<rparr>))))"

subsection \<open>The version order in the words of the specification\<close>

text \<open>
  The specification orders the keys of \<open>versions\<close> by splitting each on \<^verbatim>\<open>.\<close>, comparing
  position by position as integers, a non-numeric segment and a missing trailing position
  counting as 0, descending, ties keeping their order. These definitions follow those
  words, a numeric segment being a run of decimal digits; they are compared with the
  program in the theorems on the version list.
\<close>

definition spec_segment :: "string \<Rightarrow> int" where
  "spec_segment s = (if radix_digits 10 s then int (digits_val 10 s) else 0)"

fun spec_compare_segments :: "int list \<Rightarrow> int list \<Rightarrow> int" where
  "spec_compare_segments [] [] = 0"
| "spec_compare_segments (a # as) [] = (if a \<noteq> 0 then 0 - a else spec_compare_segments as [])"
| "spec_compare_segments [] (b # bs) = (if 0 \<noteq> b then b else spec_compare_segments [] bs)"
| "spec_compare_segments (a # as) (b # bs) = (if a \<noteq> b then b - a else spec_compare_segments as bs)"

definition spec_compare :: "string \<Rightarrow> string \<Rightarrow> int" where
  "spec_compare a b =
     spec_compare_segments (map spec_segment (split_str (CHR ''.'') a))
                           (map spec_segment (split_str (CHR ''.'') b))"

definition spec_version_list :: "NpmRegistryResponse \<Rightarrow> string list" where
  "spec_version_list data = array_sort spec_compare (map fst (versions data))"

subsection \<open>Sample documents and hosts\<close>

definition sample_version :: "string \<Rightarrow> author_field option \<Rightarrow> string option \<Rightarrow> version_data" where
  \<comment> \<open>the record of version \<open>v\<close> of a package \<^verbatim>\<open>widget\<close>, with the given author field and
      repository URL\<close>
  "sample_version v a repo =
     \<lparr>v_name = ''widget'', v_version = v, v_description = None, v_license = Some ''MIT'',
      v_author = a, v_dependencies = None, v_devDependencies = None, v_homepage = None,
      v_repository = map_option (\<lambda>u. \<lparr>repo_type = ''git'', url = u\<rparr>) repo\<rparr>"

definition sample_document :: "string option \<Rightarrow> (string \<times> version_data) list \<Rightarrow> NpmRegistryResponse" where
  "sample_document latest vs =
     \<lparr>r_name = ''widget'', dist_tags_latest = latest, versions = vs, time = [],
      r_maintainers = [], r_homepage = None, r_repository = None\<rparr>"

definition sample_host ::
  "string + NpmRegistryResponse response \<Rightarrow> string + NpmDownloadsResponse response \<Rightarrow> host" where
  \<comment> \<open>a host that answers every registry request with \<open>reg\<close> and every downloads request with
      \<open>dl\<close>, and on which every exact value met is a double\<close>
  "sample_host reg dl =
     \<lparr>fetch_registry = (\<lambda>u. reg), fetch_downloads = (\<lambda>u. dl), toDouble = Fin,
      toLocaleDateString = (\<lambda>raw. case raw of Own t \<Rightarrow> t | Inherited k \<Rightarrow> ''Invalid Date'')\<rparr>"

definition serves :: "'a \<Rightarrow> string + 'a response" where
  \<comment> \<open>a request answered \<^verbatim>\<open>200 OK\<close> with the document\<close>
  "serves doc = Inr (Response 200 ''OK'' (Inr doc))"

definition no_stats :: "string + NpmDownloadsResponse response" where
  \<comment> \<open>the downloads endpoint answering 404\<close>
  "no_stats = Inr (Response 404 ''Not Found'' (Inl ''Unexpected token''))"

text \<open>
  \<open>four_versions\<close> has the four keys of the specification's example, in the order the
  example lists them. \<open>fraction_versions\<close> has a key with the segment \<^verbatim>\<open>5e-1\<close>, which
  \<^verbatim>\<open>Number\<close> reads as one half.
\<close>

definition four_versions :: NpmRegistryResponse where
  "four_versions =
     sample_document (Some ''2.0.0'')
       [(''1.2.0'', sample_version ''1.2.0'' None None),
        (''1.10.0'', sample_version ''1.10.0'' None None),
        (''2.0.0'', sample_version ''2.0.0'' None None),
        (''1.2.10'', sample_version ''1.2.10'' None None)]"

definition fraction_versions :: NpmRegistryResponse where
  "fraction_versions =
     sample_document (Some ''1.1'')
       [(''1.0'', sample_version ''1.0'' None None),
        (''1.5e-1'', sample_version ''1.5e-1'' None None),
        (''1.1'', sample_version ''1.1'' None None)]"

text \<open>
  Further documents: one whose only record carries a version field other than its key;
  one without a latest tag; one with a record whose author string begins with \<^verbatim>\<open><\<close>, a
  record with the author string of the specification's example, and a record without
  author that has the repository URL of the specification's example.
\<close>

definition mislabelled_version :: NpmRegistryResponse where
  "mislabelled_version =
     sample_document (Some ''1.0.0'') [(''1.0.0'', sample_version ''1.0.1'' None None)]"

definition untagged :: NpmRegistryResponse where
  "untagged = sample_document None [(''1.0.0'', sample_version ''1.0.0'' None None)]"

definition authored :: NpmRegistryResponse where
  "authored =
     sample_document (Some ''2.0.0'')
       [(''1.0.0'', sample_version ''1.0.0'' (Some (AuthorString ''<jane@example.com>'')) None),
        (''1.2.0'', sample_version ''1.2.0''
                      (Some (AuthorString ''Jane Doe <jane@example.com>'')) None),
        (''2.0.0'', sample_version ''2.0.0'' None
                      (Some ''git+https://github.com/acme/widget.git''))]"

definition repository_at_root :: NpmRegistryResponse where
  \<comment> \<open>\<open>four_versions\<close> with a repository of the document itself\<close>
  "repository_at_root =
     four_versions
       \<lparr>r_repository := Some \<lparr>repo_type = ''git'', url = ''https://github.com/acme/widget''\<rparr>\<rparr>"

subsection \<open>The GitHub pattern in the words of the specification\<close>

text \<open>
  A string begins with \<^verbatim>\<open>github.com/<owner>/<repo>\<close> when it reads \<^verbatim>\<open>github.com/\<close>, then
  an owner that is not empty and has no \<^verbatim>\<open>/\<close>, then \<^verbatim>\<open>/\<close>, then a repository part that
  begins with a character other than \<^verbatim>\<open>/\<close>.
\<close>

definition github_pattern_at :: "string \<Rightarrow> string \<Rightarrow> bool" where
  "github_pattern_at owner s =
     (\<exists>repo. s = ''github.com/'' @ owner @ CHR ''/'' # repo
        \<and> owner \<noteq> [] \<and> CHR ''/'' \<notin> set owner \<and> repo \<noteq> [] \<and> hd repo \<noteq> CHR ''/'')"

subsection \<open>Outcomes of the downloads request that are failures\<close>

definition download_failure :: "string + NpmDownloadsResponse response \<Rightarrow> bool" where
  \<comment> \<open>no response at all, a 404, any other status outside 200..299, or a body that
      \<^verbatim>\<open>response.json()\<close> rejects\<close>
  "download_failure reply =
     (case reply of
        Inl m \<Rightarrow> True
      | Inr response \<Rightarrow> status response = 404 \<or> \<not> ok response \<or> isl (json response))"

section \<open>Properties\<close>

subsection \<open>The comparator as a lexicographic order\<close>

lemma num_less_irrefl: "\<not> num_less a a"
  by (cases a) simp_all

lemma num_less_trans: "num_less a b \<Longrightarrow> num_less b c \<Longrightarrow> num_less a c"
  by (cases a; cases b; cases c) simp_all

lemma num_less_asym: "num_less a b \<Longrightarrow> \<not> num_less b a"
  by (cases a; cases b) simp_all

lemma num_less_total: "a \<noteq> NaN \<Longrightarrow> b \<noteq> NaN \<Longrightarrow> a \<noteq> b \<Longrightarrow> num_less a b \<or> num_less b a"
  by (cases a; cases b) auto

lemma orZero_not_NaN: "orZero v \<noteq> NaN"
  by (simp add: orZero_def split: option.split number.split)

lemma part_or_zero_not_NaN: "part_or_zero ps i \<noteq> NaN"
  by (simp add: part_or_zero_def orZero_not_NaN)

lemma part_or_zero_Nil: "part_or_zero [] = (\<lambda>i. Fin 0)"
  by (rule ext) (simp add: part_or_zero_def orZero_def)

lemma part_or_zero_Cons: "part_or_zero (a # as) = case_nat (orZero (Some a)) (part_or_zero as)"
  by (rule ext) (simp add: part_or_zero_def split: nat.split)

lemma precedes_case_nat:
  "precedes (case_nat x f) (case_nat y g) \<longleftrightarrow> num_less y x \<or> (x = y \<and> precedes f g)"
proof
  assume "precedes (case_nat x f) (case_nat y g)"
  then obtain i where eq: "\<forall>j<i. case_nat x f j = case_nat y g j"
    and lt: "num_less (case_nat y g i) (case_nat x f i)"
    unfolding precedes_def by blast
  show "num_less y x \<or> (x = y \<and> precedes f g)"
  proof (cases i)
    case 0
    with lt show ?thesis by simp
  next
    case (Suc k)
    from eq Suc have "x = y" by (auto dest: spec [of _ 0])
    moreover from eq Suc have "\<forall>j<k. f j = g j"
      by (auto dest: spec [of _ "Suc _"])
    moreover from lt Suc have "num_less (g k) (f k)" by simp
    ultimately show ?thesis unfolding precedes_def by blast
  qed
next
  assume r: "num_less y x \<or> (x = y \<and> precedes f g)"
  show "precedes (case_nat x f) (case_nat y g)"
  proof (cases "num_less y x")
    case True
    then show ?thesis unfolding precedes_def by (intro exI [of _ 0]) simp
  next
    case False
    with r obtain i where "x = y" "\<forall>j<i. f j = g j" "num_less (g i) (f i)"
      unfolding precedes_def by blast
    then show ?thesis unfolding precedes_def
      by (intro exI [of _ "Suc i"]) (auto split: nat.split)
  qed
qed

lemma precedes_const: "\<not> precedes (\<lambda>i. c) (\<lambda>i. c)"
  by (simp add: precedes_def num_less_irrefl)

lemma step_neg:
  "x \<noteq> NaN \<Longrightarrow> y \<noteq> NaN \<Longrightarrow> step x y r < 0 \<longleftrightarrow> num_less y x \<or> (x = y \<and> r < 0)"
  using num_less_total [of x y] num_less_asym [of x y] num_less_irrefl [of x]
  by (auto simp: step_def diff_sign_def)

lemma step_pos:
  "x \<noteq> NaN \<Longrightarrow> y \<noteq> NaN \<Longrightarrow> 0 < step x y r \<longleftrightarrow> num_less x y \<or> (x = y \<and> 0 < r)"
  using num_less_total [of x y] num_less_asym [of x y] num_less_irrefl [of x]
  by (auto simp: step_def diff_sign_def)

lemma compareParts_neg:
  "compareParts as bs < 0 \<longleftrightarrow> precedes (part_or_zero as) (part_or_zero bs)"
proof (induction as bs rule: compareParts.induct)
  case 1
  show ?case by (simp add: part_or_zero_Nil precedes_const)
next
  case (2 a as)
  have "part_or_zero [] = case_nat (orZero None) (part_or_zero [])"
    by (rule ext) (simp add: part_or_zero_Nil orZero_def split: nat.split)
  then have "precedes (part_or_zero (a # as)) (part_or_zero []) \<longleftrightarrow>
      num_less (orZero None) (orZero (Some a)) \<or> (orZero (Some a) = orZero None \<and> precedes (part_or_zero as) (part_or_zero []))"
    by (metis part_or_zero_Cons precedes_case_nat)
  with 2 show ?case by (simp add: step_neg orZero_not_NaN)
next
  case (3 b bs)
  have "part_or_zero [] = case_nat (orZero None) (part_or_zero [])"
    by (rule ext) (simp add: part_or_zero_Nil orZero_def split: nat.split)
  then have "precedes (part_or_zero []) (part_or_zero (b # bs)) \<longleftrightarrow>
      num_less (orZero (Some b)) (orZero None) \<or> (orZero None = orZero (Some b) \<and> precedes (part_or_zero []) (part_or_zero bs))"
    by (metis part_or_zero_Cons precedes_case_nat)
  with 3 show ?case by (simp add: step_neg orZero_not_NaN)
next
  case (4 a as b bs)
  then show ?case
    by (simp add: step_neg orZero_not_NaN part_or_zero_Cons precedes_case_nat)
qed


lemma compareParts_pos:
  "0 < compareParts as bs \<longleftrightarrow> precedes (part_or_zero bs) (part_or_zero as)"
proof (induction as bs rule: compareParts.induct)
  case 1
  show ?case by (simp add: part_or_zero_Nil precedes_const)
next
  case (2 a as)
  have "part_or_zero [] = case_nat (orZero None) (part_or_zero [])"
    by (rule ext) (simp add: part_or_zero_Nil orZero_def split: nat.split)
  then have "precedes (part_or_zero []) (part_or_zero (a # as)) \<longleftrightarrow>
      num_less (orZero (Some a)) (orZero None) \<or> (orZero None = orZero (Some a) \<and> precedes (part_or_zero []) (part_or_zero as))"
    by (metis part_or_zero_Cons precedes_case_nat)
  with 2 show ?case by (auto simp add: step_pos orZero_not_NaN)
next
  case (3 b bs)
  have "part_or_zero [] = case_nat (orZero None) (part_or_zero [])"
    by (rule ext) (simp add: part_or_zero_Nil orZero_def split: nat.split)
  then have "precedes (part_or_zero (b # bs)) (part_or_zero []) \<longleftrightarrow>
      num_less (orZero None) (orZero (Some b)) \<or> (orZero (Some b) = orZero None \<and> precedes (part_or_zero bs) (part_or_zero []))"
    by (metis part_or_zero_Cons precedes_case_nat)
  with 3 show ?case by (auto simp add: step_pos orZero_not_NaN)
next
  case (4 a as b bs)
  then show ?case
    by (auto simp add: step_pos orZero_not_NaN part_or_zero_Cons precedes_case_nat)
qed

lemma precedes_asym: "precedes f g \<Longrightarrow> \<not> precedes g f"
proof
  assume "precedes f g" "precedes g f"
  then obtain i k where i: "\<forall>j<i. f j = g j" "num_less (g i) (f i)"
    and k: "\<forall>j<k. g j = f j" "num_less (f k) (g k)"
    unfolding precedes_def by blast
  consider "i < k" | "k < i" | "i = k" by linarith
  then show False
  proof cases
    case 1
    with k(1) i(2) show False by (simp add: num_less_irrefl)
  next
    case 2
    with i(1) k(2) show False by (simp add: num_less_irrefl)
  next
    case 3
    with i(2) k(2) show False by (simp add: num_less_asym)
  qed
qed

lemma precedes_cotrans:
  assumes nn: "\<And>i. f i \<noteq> NaN" "\<And>i. g i \<noteq> NaN" "\<And>i. m i \<noteq> NaN"
    and fg: "precedes f g"
  shows "precedes f m \<or> precedes m g"
proof -
  from fg obtain i where eq: "\<forall>j<i. f j = g j" and lt: "num_less (g i) (f i)"
    unfolding precedes_def by blast
  define k where "k = (LEAST j. m j \<noteq> f j \<or> j = i)"
  have kP: "m k \<noteq> f k \<or> k = i"
    unfolding k_def by (rule LeastI [of _ i]) simp
  have kle: "k \<le> i"
    unfolding k_def by (rule Least_le) simp
  have kmin: "m j = f j" if "j < k" for j
    using not_less_Least [of j "\<lambda>j. m j \<noteq> f j \<or> j = i"] that unfolding k_def by blast
  show ?thesis
  proof (cases "m k = f k")
    case True
    with kP have "k = i" by simp
    with True lt kmin eq have "\<forall>j<i. m j = g j" "num_less (g i) (m i)" by auto
    then show ?thesis unfolding precedes_def by blast
  next
    case False
    then consider "num_less (m k) (f k)" | "num_less (f k) (m k)"
      using num_less_total [of "m k" "f k"] nn by blast
    then show ?thesis
    proof cases
      case 1
      with kmin have "precedes f m" unfolding precedes_def by (intro exI [of _ k]) simp
      then show ?thesis ..
    next
      case 2
      have "num_less (g k) (m k)"
      proof (cases "k = i")
        case True
        with lt 2 show ?thesis by (auto intro: num_less_trans)
      next
        case False
        with kle eq have "f k = g k" by simp
        with 2 show ?thesis by simp
      qed
      moreover have "\<forall>j<k. m j = g j" using kmin eq kle by auto
      ultimately have "precedes m g" unfolding precedes_def by blast
      then show ?thesis ..
    qed
  qed
qed

lemma precedes_total:
  assumes nn: "\<And>i. f i \<noteq> NaN" "\<And>i. g i \<noteq> NaN" and ne: "f \<noteq> g"
  shows "precedes f g \<or> precedes g f"
proof -
  from ne obtain i0 where "f i0 \<noteq> g i0" by blast
  define k where "k = (LEAST j. f j \<noteq> g j)"
  have kP: "f k \<noteq> g k" unfolding k_def by (rule LeastI [of _ i0]) fact
  have kmin: "f j = g j" if "j < k" for j
    using not_less_Least [of j "\<lambda>j. f j \<noteq> g j"] that unfolding k_def by blast
  from kP nn consider "num_less (f k) (g k)" | "num_less (g k) (f k)"
    using num_less_total [of "f k" "g k"] by blast
  then show ?thesis
  proof cases
    case 1
    with kmin have "precedes g f" unfolding precedes_def by (intro exI [of _ k]) simp
    then show ?thesis ..
  next
    case 2
    with kmin have "precedes f g" unfolding precedes_def by (intro exI [of _ k]) simp
    then show ?thesis ..
  qed
qed

lemma precedes_irrefl: "\<not> precedes f f"
  by (simp add: precedes_def num_less_irrefl)

lemma compareParts_zero:
  "compareParts as bs = 0 \<longleftrightarrow> part_or_zero as = part_or_zero bs"
proof -
  have "compareParts as bs = 0 \<longleftrightarrow> \<not> compareParts as bs < 0 \<and> \<not> 0 < compareParts as bs"
    by linarith
  also have "\<dots> \<longleftrightarrow> \<not> precedes (part_or_zero as) (part_or_zero bs) \<and> \<not> precedes (part_or_zero bs) (part_or_zero as)"
    by (simp add: compareParts_neg compareParts_pos)
  also have "\<dots> \<longleftrightarrow> part_or_zero as = part_or_zero bs"
    using precedes_total [of "part_or_zero as" "part_or_zero bs"] precedes_irrefl [of "part_or_zero bs"]
    by (auto simp: part_or_zero_not_NaN)
  finally show ?thesis .
qed


subsection \<open>Insertion into a sorted array\<close>

lemma mset_insert_by: "mset (insert_by cmp x ys) = add_mset x (mset ys)"
  by (induction ys) auto

lemma mset_array_sort: "mset (array_sort cmp xs) = mset xs"
  by (induction xs) (auto simp: mset_insert_by)

lemma set_insert_by: "set (insert_by cmp x ys) = insert x (set ys)"
  by (induction ys) auto

lemma sorted_insert_by:
  assumes tr: "\<And>x y z. cmp x y \<le> 0 \<Longrightarrow> cmp y z \<le> 0 \<Longrightarrow> cmp x z \<le> 0"
    and tot: "\<And>x y. 0 < cmp x y \<Longrightarrow> cmp y x \<le> 0"
  shows "sorted_wrt (\<lambda>a b. cmp a b \<le> 0) ys \<Longrightarrow> sorted_wrt (\<lambda>a b. cmp a b \<le> 0) (insert_by cmp x ys)"
proof (induction ys)
  case Nil
  show ?case by simp
next
  case (Cons y ys)
  show ?case
  proof (cases "cmp x y \<le> 0")
    case True
    with Cons.prems have "\<forall>z\<in>set ys. cmp x z \<le> 0" by (auto intro: tr)
    with True Cons.prems show ?thesis by simp
  next
    case False
    then have "cmp y x \<le> 0" by (intro tot) simp
    with False Cons show ?thesis by (simp add: set_insert_by)
  qed
qed

lemma sorted_array_sort:
  assumes tr: "\<And>x y z. cmp x y \<le> 0 \<Longrightarrow> cmp y z \<le> 0 \<Longrightarrow> cmp x z \<le> 0"
    and tot: "\<And>x y. 0 < cmp x y \<Longrightarrow> cmp y x \<le> 0"
  shows "sorted_wrt (\<lambda>a b. cmp a b \<le> 0) (array_sort cmp xs)"
  by (induction xs) (simp_all add: sorted_insert_by [where cmp = cmp, OF tr tot])

lemma filter_insert_by:
  assumes tie: "\<And>y. P x \<Longrightarrow> P y \<Longrightarrow> cmp x y \<le> 0"
  shows "filter P (insert_by cmp x ys) = (if P x then x # filter P ys else filter P ys)"
  using tie by (induction ys) auto

lemma stable_array_sort:
  assumes tie: "\<And>x y. P x \<Longrightarrow> P y \<Longrightarrow> cmp x y \<le> 0"
  shows "filter P (array_sort cmp xs) = filter P xs"
  by (induction xs) (simp_all add: filter_insert_by tie)

lemma sorted_unique:
  assumes strict: "\<And>x y. cmp x y < 0 \<Longrightarrow> \<not> cmp y x \<le> 0"
  shows "sorted_wrt (\<lambda>a b. cmp a b < 0) ys \<Longrightarrow> sorted_wrt (\<lambda>a b. cmp a b \<le> 0) xs \<Longrightarrow>
         mset xs = mset ys \<Longrightarrow> xs = ys"
proof (induction ys arbitrary: xs)
  case Nil
  then show ?case by simp
next
  case (Cons y ys)
  from Cons.prems(3) obtain x xs' where xs: "xs = x # xs'"
    by (cases xs) auto
  have "x = y"
  proof (rule ccontr)
    assume ne: "x \<noteq> y"
    from Cons.prems(3) xs have "x \<in># mset (y # ys)" by (metis list.set_intros(1) set_mset_mset)
    with ne have "x \<in> set ys" by simp
    with Cons.prems(1) have 1: "cmp y x < 0" by simp
    from Cons.prems(3) xs have "y \<in># mset (x # xs')" by (metis list.set_intros(1) set_mset_mset)
    with ne have "y \<in> set xs'" by simp
    with Cons.prems(2) xs have "cmp x y \<le> 0" by simp
    with 1 strict show False by blast
  qed
  with Cons xs show ?case by simp
qed

subsection \<open>The comparator is consistent\<close>

lemma compareVersions_neg:
  "compareVersions rnd a b < 0 \<longleftrightarrow> precedes (part_or_zero (parts rnd a)) (part_or_zero (parts rnd b))"
  by (simp add: compareVersions_def compareParts_neg)

lemma compareVersions_pos:
  "0 < compareVersions rnd a b \<longleftrightarrow> precedes (part_or_zero (parts rnd b)) (part_or_zero (parts rnd a))"
  by (simp add: compareVersions_def compareParts_pos)

lemma compareVersions_zero:
  "compareVersions rnd a b = 0 \<longleftrightarrow> part_or_zero (parts rnd a) = part_or_zero (parts rnd b)"
  by (simp add: compareVersions_def compareParts_zero)

lemma compareVersions_total: "0 < compareVersions rnd x y \<Longrightarrow> compareVersions rnd y x \<le> 0"
  using precedes_asym [of "part_or_zero (parts rnd y)" "part_or_zero (parts rnd x)"]
  by (simp add: compareVersions_pos not_less [symmetric])

lemma compareVersions_trans:
  assumes "compareVersions rnd x y \<le> 0" "compareVersions rnd y z \<le> 0"
  shows "compareVersions rnd x z \<le> 0"
proof (rule ccontr)
  assume "\<not> compareVersions rnd x z \<le> 0"
  then have "precedes (part_or_zero (parts rnd z)) (part_or_zero (parts rnd x))"
    by (simp add: compareVersions_pos not_le)
  then have "precedes (part_or_zero (parts rnd z)) (part_or_zero (parts rnd y))
      \<or> precedes (part_or_zero (parts rnd y)) (part_or_zero (parts rnd x))"
    by (intro precedes_cotrans) (simp_all add: part_or_zero_not_NaN)
  then have "0 < compareVersions rnd y z \<or> 0 < compareVersions rnd x y"
    by (simp add: compareVersions_pos)
  with assms show False by linarith
qed

lemma compareVersions_consistent:
  "compareVersions rnd a a = 0"
  "(compareVersions rnd a b < 0) = (0 < compareVersions rnd b a)"
  "compareVersions rnd a b \<le> 0 \<Longrightarrow> compareVersions rnd b c \<le> 0 \<Longrightarrow> compareVersions rnd a c \<le> 0"
  "compareVersions rnd a b = 0 \<Longrightarrow> compareVersions rnd b c = 0 \<Longrightarrow> compareVersions rnd a c = 0"
  by (simp_all add: compareVersions_zero compareVersions_neg compareVersions_pos compareVersions_trans)

subsection \<open>The sorted arrangement that keeps ties in place is unique\<close>

lemma stable_sorted_unique:
  fixes cmp :: "'a \<Rightarrow> 'a \<Rightarrow> int"
  assumes refl: "\<And>x. cmp x x = 0"
    and anti: "\<And>x y. cmp x y \<le> 0 \<Longrightarrow> cmp y x \<le> 0 \<Longrightarrow> cmp x y = 0 \<and> cmp y x = 0"
  shows "sorted_wrt (\<lambda>a b. cmp a b \<le> 0) ys \<Longrightarrow> sorted_wrt (\<lambda>a b. cmp a b \<le> 0) zs \<Longrightarrow>
         (\<And>k. filter (\<lambda>v. cmp v k = 0) ys = filter (\<lambda>v. cmp v k = 0) zs) \<Longrightarrow> ys = zs"
proof (induction ys arbitrary: zs)
  case Nil
  show ?case
  proof (cases zs)
    case Nil
    then show ?thesis by simp
  next
    case (Cons z zs')
    with Nil.prems(3) [of z] refl [of z] show ?thesis by simp
  qed
next
  case (Cons y ys)
  from Cons.prems(3) [of y] refl [of y] obtain z zs' where zs: "zs = z # zs'"
    by (cases zs) auto
  have "y \<in> set (filter (\<lambda>v. cmp v y = 0) (y # ys))" using refl [of y] by simp
  then have "y \<in> set zs" unfolding Cons.prems(3) [of y] by simp
  with Cons.prems(2) zs refl [of z] have zy: "cmp z y \<le> 0" by auto
  have "z \<in> set (filter (\<lambda>v. cmp v z = 0) zs)" using zs refl [of z] by simp
  then have "z \<in> set (filter (\<lambda>v. cmp v z = 0) (y # ys))"
    unfolding Cons.prems(3) [of z, symmetric] .
  then have "z \<in> set (y # ys)"
    using filter_is_subset [of "\<lambda>v. cmp v z = 0" "y # ys"] by blast
  with Cons.prems(1) refl [of y] have yz: "cmp y z \<le> 0" by auto
  from anti [OF yz zy] have tie: "cmp y z = 0" "cmp z y = 0" by simp_all
  from Cons.prems(3) [of y] zs tie refl [of y] have "y = z" by simp
  have "ys = zs'"
  proof (rule Cons.IH)
    show "sorted_wrt (\<lambda>a b. cmp a b \<le> 0) ys" using Cons.prems(1) by simp
    show "sorted_wrt (\<lambda>a b. cmp a b \<le> 0) zs'" using Cons.prems(2) zs by simp
    show "filter (\<lambda>v. cmp v k = 0) ys = filter (\<lambda>v. cmp v k = 0) zs'" for k
      using Cons.prems(3) [of k] zs \<open>y = z\<close> by (simp split: if_splits)
  qed
  with \<open>y = z\<close> zs show ?case by simp
qed

lemma compareVersions_anti:
  assumes "compareVersions rnd x y \<le> 0" "compareVersions rnd y x \<le> 0"
  shows "compareVersions rnd x y = 0 \<and> compareVersions rnd y x = 0"
  using assms compareVersions_consistent(2) [of rnd x y] compareVersions_consistent(2) [of rnd y x]
  by linarith

lemma array_sort_versions_unique:
  assumes "sorted_wrt (\<lambda>a b. compareVersions rnd a b \<le> 0) ys"
    and "\<And>k. filter (\<lambda>v. compareVersions rnd v k = 0) ys = filter (\<lambda>v. compareVersions rnd v k = 0) xs"
  shows "ys = array_sort (compareVersions rnd) xs"
proof (rule stable_sorted_unique [where cmp = "compareVersions rnd"])
  show "compareVersions rnd x x = 0" for x by (rule compareVersions_consistent(1))
  show "compareVersions rnd x y = 0 \<and> compareVersions rnd y x = 0"
    if "compareVersions rnd x y \<le> 0" "compareVersions rnd y x \<le> 0" for x y
    using that by (rule compareVersions_anti)
  show "sorted_wrt (\<lambda>a b. compareVersions rnd a b \<le> 0) ys" by fact
  show "sorted_wrt (\<lambda>a b. compareVersions rnd a b \<le> 0) (array_sort (compareVersions rnd) xs)"
    by (rule sorted_array_sort) (blast intro: compareVersions_trans compareVersions_total)+
  show "filter (\<lambda>v. compareVersions rnd v k = 0) ys
      = filter (\<lambda>v. compareVersions rnd v k = 0) (array_sort (compareVersions rnd) xs)" for k
  proof -
    have "compareVersions rnd x y \<le> 0"
      if "compareVersions rnd x k = 0" "compareVersions rnd y k = 0" for x y
    proof -
      from that have "compareVersions rnd x y = 0" by (simp add: compareVersions_zero)
      then show ?thesis by simp
    qed
    then have "filter (\<lambda>v. compareVersions rnd v k = 0) (array_sort (compareVersions rnd) xs)
        = filter (\<lambda>v. compareVersions rnd v k = 0) xs"
      by (rule stable_array_sort)
    with assms(2) [of k] show ?thesis by simp
  qed
qed

subsection \<open>Decimal digit runs under \<^verbatim>\<open>Number\<close>\<close>

lemma digit_val_less_10: "digit_val c < 10 \<longleftrightarrow> is_digit c"
  by (auto simp: digit_val_def is_digit_def Let_def)

lemma is_digit_not_space: "is_digit c \<Longrightarrow> \<not> is_space c"
  by (auto simp: is_digit_def is_space_def)

lemma trim_id:
  assumes "s \<noteq> []" "\<not> is_space (hd s)" "\<not> is_space (last s)"
  shows "trim s = s"
proof -
  from assms have 1: "dropWhile is_space s = s" by (cases s) auto
  from assms have "rev s \<noteq> []" "\<not> is_space (hd (rev s))" by (simp_all add: hd_rev)
  then have "dropWhile is_space (rev s) = rev s" by (cases "rev s") auto
  with 1 show ?thesis by (simp add: trim_def)
qed

lemma Number_digits:
  assumes "radix_digits 10 s"
  shows "Number rnd s = rnd (of_nat (digits_val 10 s))"
proof -
  from assms have ne: "s \<noteq> []" and dig: "\<forall>c\<in>set s. is_digit c"
    by (simp_all add: radix_digits_def list_all_iff digit_val_less_10)
  from ne dig have "is_digit (hd s)" "is_digit (last s)" by simp_all
  with ne have tr: "trim s = s" by (intro trim_id) (simp_all add: is_digit_not_space)
  have rl: "radix_literal s = None"
  proof (cases s)
    case Nil
    then show ?thesis by (simp add: radix_literal_def)
  next
    case (Cons z r)
    show ?thesis
    proof (cases r)
      case Nil
      with Cons show ?thesis by (simp add: radix_literal_def)
    next
      case (Cons p ds)
      with \<open>s = z # r\<close> dig have "is_digit p" by simp
      then have "p \<notin> {CHR ''x'', CHR ''X'', CHR ''o'', CHR ''O'', CHR ''b'', CHR ''B''}"
        by (auto simp: is_digit_def)
      with Cons \<open>s = z # r\<close> show ?thesis by (simp add: radix_literal_def)
    qed
  qed
  from ne \<open>is_digit (hd s)\<close> have sg: "split_sign s = (False, s)"
    by (cases s) (auto simp: split_sign_def is_digit_def)
  from ne \<open>is_digit (hd s)\<close> have inf: "s \<noteq> ''Infinity''"
    by (auto simp: is_digit_def)
  from dig have tw: "takeWhile is_digit s = s" "dropWhile is_digit s = []" by simp_all
  have ud: "unsigned_decimal s = Some (of_nat (digits_val 10 s))"
    unfolding unsigned_decimal_def tw Let_def using ne
    by (simp add: exponent_part_def pow10_def digits_val_def)
  from ne tr rl sg inf ud show ?thesis by (simp add: Number_def)
qed

lemma part_or_zero_parts:
  "part_or_zero (parts rnd v) i =
     (if i < length (split_str (CHR ''.'') v) \<and> Number rnd (split_str (CHR ''.'') v ! i) \<noteq> NaN
      then Number rnd (split_str (CHR ''.'') v ! i) else Fin 0)"
  by (simp add: part_or_zero_def parts_def orZero_def split: number.split)

subsection \<open>When \<^verbatim>\<open>fetchPackageData\<close> resolves\<close>

lemma get_property_own: "map_of obj k = Some v \<Longrightarrow> get_property obj k = Some (Own v)"
  by (simp add: get_property_def)

lemma get_property_undefined:
  "get_property obj k = None \<longleftrightarrow> k \<notin> set (map fst obj) \<and> \<not> inherits k"
proof (cases "map_of obj k")
  case None
  then have "k \<notin> set (map fst obj)" by (simp add: map_of_eq_None_iff)
  with None show ?thesis by (simp add: get_property_def)
next
  case (Some v)
  then have "(k, v) \<in> set obj" by (rule map_of_SomeD)
  then have "k \<in> set (map fst obj)" by force
  with Some show ?thesis by (simp add: get_property_def)
qed

lemma read_field_Own: "read_field f (Own vd) = f vd"
  by (simp add: read_field_def)

lemma read_name_Own: "read_name (Own vd) = Some (v_name vd)"
  by (simp add: read_name_def)

lemma fetchPackageData_found:
  assumes "fetchDocument h packageName = Inr data"
    and "dist_tags_latest data = Some latestVersion" "latestVersion \<noteq> []"
    and "get_property (versions data) (versionToFetch latestVersion requested) = Some versionData"
  shows "fetchPackageData h packageName requested =
    Inr \<lparr>packageData =
          \<lparr>name = read_name versionData,
           version = read_field (\<lambda>vd. Some (v_version vd)) versionData,
           description = read_field v_description versionData,
           license = read_field v_license versionData,
           author = js_or (authorFromRepo (authorFromField (read_field v_author versionData))
                             (js_or (map_option url (read_field v_repository versionData))
                                    (map_option url (r_repository data))))
                          (Some ''N/A''),
           dependencies = read_field v_dependencies versionData,
           devDependencies = read_field v_devDependencies versionData,
           homepage = js_or (read_field v_homepage versionData) (r_homepage data),
           repository = js_or (map_option url (read_field v_repository versionData))
                              (map_option url (r_repository data)),
           npmUrl = ''https://www.npmjs.com/package/'' @ packageName,
           publishedDate =
             (case get_property (time data) (versionToFetch latestVersion requested) of
                None \<Rightarrow> None
              | Some (Own raw) \<Rightarrow> if raw = [] then None else Some (toLocaleDateString h (Own raw))
              | Some (Inherited k) \<Rightarrow> Some (toLocaleDateString h (Inherited k))),
           maintainers = Some (r_maintainers data),
           downloadsLastWeek = fetchPackageDownloads h packageName\<rparr>,
         allVersions = array_sort (compareVersions (toDouble h)) (map fst (versions data))\<rparr>"
  using assms by (simp add: fetchPackageData_def Let_def)

lemma fetchPackageData_resolved:
  assumes "fetchDocument h packageName = Inr data"
    and "dist_tags_latest data = Some latestVersion" "latestVersion \<noteq> []"
    and "map_of (versions data) (versionToFetch latestVersion requested) = Some versionData"
  shows "fetchPackageData h packageName requested =
    Inr \<lparr>packageData =
          \<lparr>name = Some (v_name versionData),
           version = Some (v_version versionData),
           description = v_description versionData,
           license = v_license versionData,
           author = js_or (authorFromRepo (authorFromField (v_author versionData))
                             (js_or (map_option url (v_repository versionData))
                                    (map_option url (r_repository data))))
                          (Some ''N/A''),
           dependencies = v_dependencies versionData,
           devDependencies = v_devDependencies versionData,
           homepage = js_or (v_homepage versionData) (r_homepage data),
           repository = js_or (map_option url (v_repository versionData))
                              (map_option url (r_repository data)),
           npmUrl = ''https://www.npmjs.com/package/'' @ packageName,
           publishedDate =
             (case get_property (time data) (versionToFetch latestVersion requested) of
                None \<Rightarrow> None
              | Some (Own raw) \<Rightarrow> if raw = [] then None else Some (toLocaleDateString h (Own raw))
              | Some (Inherited k) \<Rightarrow> Some (toLocaleDateString h (Inherited k))),
           maintainers = Some (r_maintainers data),
           downloadsLastWeek = fetchPackageDownloads h packageName\<rparr>,
         allVersions = array_sort (compareVersions (toDouble h)) (map fst (versions data))\<rparr>"
  unfolding fetchPackageData_found [OF assms(1-3) get_property_own [OF assms(4)]]
  by (simp only: read_field_Own read_name_Own)

lemma fetchPackageData_InrE:
  assumes "fetchPackageData h packageName requested = Inr result"
  obtains data latestVersion versionData where
    "fetchDocument h packageName = Inr data"
    "dist_tags_latest data = Some latestVersion" "latestVersion \<noteq> []"
    "get_property (versions data) (versionToFetch latestVersion requested) = Some versionData"
proof (cases "fetchDocument h packageName")
  case (Inl e)
  with assms show ?thesis by (simp add: fetchPackageData_def)
next
  case (Inr data)
  show ?thesis
  proof (cases "dist_tags_latest data")
    case None
    with assms Inr show ?thesis by (simp add: fetchPackageData_def)
  next
    case (Some l)
    show ?thesis
    proof (cases "l = []")
      case True
      with assms Inr Some show ?thesis by (simp add: fetchPackageData_def)
    next
      case False
      show ?thesis
      proof (cases "get_property (versions data) (versionToFetch l requested)")
        case None
        with assms Inr Some False show ?thesis by (simp add: fetchPackageData_def)
      next
        case (Some entry)
        with Inr \<open>dist_tags_latest data = Some l\<close> False show ?thesis by (rule that)
      qed
    qed
  qed
qed

lemma resolved_fields:
  assumes "fetchDocument h packageName = Inr data"
    and "dist_tags_latest data = Some latestVersion" "latestVersion \<noteq> []"
    and "map_of (versions data) (versionToFetch latestVersion requested) = Some versionData"
  shows "\<exists>result. fetchPackageData h packageName requested = Inr result
      \<and> name (packageData result) = Some (v_name versionData)
      \<and> version (packageData result) = Some (v_version versionData)
      \<and> description (packageData result) = v_description versionData
      \<and> license (packageData result) = v_license versionData
      \<and> dependencies (packageData result) = v_dependencies versionData
      \<and> devDependencies (packageData result) = v_devDependencies versionData"
  by (simp add: fetchPackageData_resolved [OF assms])

lemma target_not_found:
  assumes "fetchDocument h packageName = Inr data"
    and "dist_tags_latest data = Some latestVersion" "latestVersion \<noteq> []"
    and "versionToFetch latestVersion requested \<notin> set (map fst (versions data))"
    and "\<not> inherits (versionToFetch latestVersion requested)"
  shows "fetchPackageData h packageName requested
    = Inl (VersionNotFound (''Could not find data for version '' @ [dq]
             @ versionToFetch latestVersion requested @ [dq] @ '' of package '' @ [dq]
             @ packageName @ [dq] @ ''.''))"
proof -
  from assms(4,5)
  have "get_property (versions data) (versionToFetch latestVersion requested) = None"
    by (simp add: get_property_undefined)
  with assms(1-3) show ?thesis by (simp add: fetchPackageData_def)
qed

lemma same_target:
  assumes "fetchDocument h packageName = Inr data"
    and "dist_tags_latest data = Some latestVersion" "latestVersion \<noteq> []"
    and "versionToFetch latestVersion r1 = versionToFetch latestVersion r2"
  shows "fetchPackageData h packageName r1 = fetchPackageData h packageName r2"
proof (cases "get_property (versions data) (versionToFetch latestVersion r1)")
  case None
  then have "versionToFetch latestVersion r1 \<notin> set (map fst (versions data))"
    "\<not> inherits (versionToFetch latestVersion r1)"
    by (simp_all add: get_property_undefined)
  from target_not_found [OF assms(1-3) this]
    target_not_found [OF assms(1-3) this [unfolded assms(4)]]
  show ?thesis by (simp only: assms(4))
next
  case (Some entry)
  from fetchPackageData_found [OF assms(1-3) Some]
    fetchPackageData_found [OF assms(1-3) Some [unfolded assms(4)]]
  show ?thesis by (simp only: assms(4))
qed

lemma not_found_message_inject:
  assumes "''Could not find data for version '' @ [dq] @ v @ [dq] @ '' of package '' @ [dq]
             @ packageName @ [dq] @ ''.''
           = ''Could not find data for version '' @ [dq] @ w @ [dq] @ '' of package '' @ [dq]
             @ packageName @ [dq] @ ''.''"
  shows "v = w"
  using assms by simp

subsection \<open>Evaluation of the comparator on concrete keys\<close>

lemmas Number_eval =
  Number_def trim_def is_space_def radix_literal_def split_sign_def unsigned_decimal_def
  is_digit_def exponent_part_def digits_val_def digit_val_def pow10_def radix_digits_def

lemmas compare_eval =
  compareVersions_def parts_def orZero_def step_def diff_sign_def

lemma example_sorted:
  assumes "rnd 0 = Fin 0" "rnd 1 = Fin 1" "rnd 2 = Fin 2" "rnd 10 = Fin 10"
  shows "sorted_wrt (\<lambda>a b. compareVersions rnd a b < 0) [''2.0.0'', ''1.10.0'', ''1.2.10'', ''1.2.0'']"
  using assms by (simp add: compare_eval Number_eval)

subsection \<open>Truth values, hosts that serve a document\<close>

lemma truthy_Some [simp]: "truthy (Some s) \<longleftrightarrow> s \<noteq> []"
  by (simp add: truthy_def)

lemma truthy_None [simp]: "\<not> truthy None"
  by (simp add: truthy_def)

lemma served_sample:
  "fetchDocument (sample_host (serves data) dl) packageName = Inr data"
  by (simp add: fetchDocument_def sample_host_def serves_def ok_def)

subsection \<open>The author steps\<close>

lemma authorFromRepo_truthy: "truthy found \<Longrightarrow> authorFromRepo found repoUrl = found"
  by (simp add: authorFromRepo_def split: option.split)

lemma js_or_sentinel_blank:
  "js_or (authorFromRepo (Some []) repoUrl) (Some ''N/A'')
     = js_or (authorFromRepo None repoUrl) (Some ''N/A'')"
  by (simp add: authorFromRepo_def js_or_def split: option.split)

lemma found_author:
  assumes "fetchDocument h packageName = Inr data"
    and "dist_tags_latest data = Some latestVersion" "latestVersion \<noteq> []"
    and "get_property (versions data) (versionToFetch latestVersion requested) = Some versionData"
  shows "\<exists>result. fetchPackageData h packageName requested = Inr result
      \<and> author (packageData result)
          = js_or (authorFromRepo (authorFromField (read_field v_author versionData))
                     (js_or (map_option url (read_field v_repository versionData))
                            (map_option url (r_repository data))))
                  (Some ''N/A'')"
  by (simp add: fetchPackageData_found [OF assms])

lemma resolved_author:
  assumes "fetchDocument h packageName = Inr data"
    and "dist_tags_latest data = Some latestVersion" "latestVersion \<noteq> []"
    and "map_of (versions data) (versionToFetch latestVersion requested) = Some versionData"
  shows "\<exists>result. fetchPackageData h packageName requested = Inr result
      \<and> author (packageData result)
          = js_or (authorFromRepo (authorFromField (v_author versionData))
                     (js_or (map_option url (v_repository versionData))
                            (map_option url (r_repository data))))
                  (Some ''N/A'')"
  by (simp add: fetchPackageData_resolved [OF assms])

subsection \<open>What a match of the GitHub pattern says about the URL\<close>

lemma github_prefix:
  assumes "startsWith ''github.com/'' s"
  shows "''github.com/'' @ drop 11 s = s"
proof -
  have "length ''github.com/'' = 11" by simp
  with assms have "take 11 s = ''github.com/''" unfolding startsWith_def by (simp only:)
  with append_take_drop_id [of 11 s] show ?thesis by (simp only:)
qed

lemma githubMatchAt_sound:
  assumes "githubMatchAt s = Some owner"
  shows "\<exists>rest. s = ''github.com/'' @ owner @ CHR ''/'' # rest
     \<and> owner \<noteq> [] \<and> CHR ''/'' \<notin> set owner \<and> rest \<noteq> [] \<and> hd rest \<noteq> CHR ''/''"
proof -
  let ?r = "drop 11 s"
  let ?P = "\<lambda>c. c \<noteq> CHR ''/''"
  from assms have sw: "startsWith ''github.com/'' s"
    by (simp add: githubMatchAt_def split: if_splits)
  from assms sw have eq:
    "(case dropWhile ?P ?r of
        slash # c # t \<Rightarrow> if takeWhile ?P ?r \<noteq> [] \<and> c \<noteq> CHR ''/''
                         then Some (takeWhile ?P ?r) else None
      | _ \<Rightarrow> None) = Some owner"
    by (simp add: githubMatchAt_def Let_def)
  then obtain slash t1 where 1: "dropWhile ?P ?r = slash # t1"
    by (cases "dropWhile ?P ?r") simp_all
  with eq obtain c t where 2: "t1 = c # t"
    by (cases t1) simp_all
  from eq 1 2 have ow: "owner = takeWhile ?P ?r" "owner \<noteq> []" "c \<noteq> CHR ''/''"
    by (auto split: if_splits)
  from 1 2 have dw: "dropWhile ?P ?r = slash # c # t" by simp
  have "\<not> ?P (hd (dropWhile ?P ?r))"
    by (rule hd_dropWhile) (simp add: dw)
  then have sl: "slash = CHR ''/''" by (simp add: dw)
  have "takeWhile ?P ?r @ dropWhile ?P ?r = ?r" by (rule takeWhile_dropWhile_id)
  then have r: "owner @ CHR ''/'' # c # t = ?r" unfolding dw sl ow(1) [symmetric] .
  have "''github.com/'' @ ?r = s"
    using sw by (rule github_prefix)
  then have s: "s = ''github.com/'' @ owner @ CHR ''/'' # c # t"
    unfolding r [symmetric] by (rule sym)
  have "\<forall>x\<in>set (takeWhile ?P ?r). ?P x" by (blast dest: set_takeWhileD)
  then have "CHR ''/'' \<notin> set owner" unfolding ow(1) [symmetric] by blast
  with s ow(2,3) show ?thesis by (intro exI [of _ "c # t"]) simp
qed

lemma githubMatch_sound:
  "githubMatch s = Some owner \<Longrightarrow>
     \<exists>pre rest. s = pre @ ''github.com/'' @ owner @ CHR ''/'' # rest
       \<and> owner \<noteq> [] \<and> CHR ''/'' \<notin> set owner \<and> rest \<noteq> [] \<and> hd rest \<noteq> CHR ''/''"
proof (induction s)
  case Nil
  then show ?case by simp
next
  case (Cons c cs)
  show ?case
  proof (cases "githubMatchAt (c # cs)")
    case (Some o')
    with Cons.prems have "o' = owner" by simp
    with Some githubMatchAt_sound [of "c # cs" owner] show ?thesis
      by (metis append_Nil)
  next
    case None
    with Cons.prems have "githubMatch cs = Some owner" by simp
    from Cons.IH [OF this] obtain pre rest where
      "cs = pre @ ''github.com/'' @ owner @ CHR ''/'' # rest"
      "owner \<noteq> []" "CHR ''/'' \<notin> set owner" "rest \<noteq> []" "hd rest \<noteq> CHR ''/''"
      by blast
    then show ?thesis by (intro exI [of _ "c # pre"] exI [of _ rest]) simp
  qed
qed

lemma githubMatchAt_complete:
  assumes "owner \<noteq> []" "CHR ''/'' \<notin> set owner" "repo \<noteq> []" "hd repo \<noteq> CHR ''/''"
  shows "githubMatchAt (''github.com/'' @ owner @ CHR ''/'' # repo) = Some owner"
proof -
  let ?P = "\<lambda>c. c \<noteq> CHR ''/''"
  from assms(2) have all: "?P x" if "x \<in> set owner" for x
    using that by auto
  have tw: "takeWhile ?P (owner @ CHR ''/'' # repo) = owner"
    using takeWhile_append2 [of owner ?P "CHR ''/'' # repo"] all by simp
  have dw: "dropWhile ?P (owner @ CHR ''/'' # repo) = CHR ''/'' # repo"
    using dropWhile_append2 [of owner ?P "CHR ''/'' # repo"] all by simp
  from assms(3) obtain c t where repo: "repo = c # t" by (cases repo) auto
  with assms(4) have c: "c \<noteq> CHR ''/''" by simp
  show ?thesis
    using assms(1) c tw dw by (simp add: githubMatchAt_def startsWith_def Let_def repo)
qed

lemma githubMatchAt_pattern:
  "githubMatchAt s = Some owner \<longleftrightarrow> github_pattern_at owner s"
proof
  assume "githubMatchAt s = Some owner"
  from githubMatchAt_sound [OF this] show "github_pattern_at owner s"
    unfolding github_pattern_at_def by blast
next
  assume "github_pattern_at owner s"
  then obtain repo where s: "s = ''github.com/'' @ owner @ CHR ''/'' # repo"
    and c: "owner \<noteq> []" "CHR ''/'' \<notin> set owner" "repo \<noteq> []" "hd repo \<noteq> CHR ''/''"
    unfolding github_pattern_at_def by blast
  show "githubMatchAt s = Some owner"
    unfolding s using c by (rule githubMatchAt_complete)
qed

lemma github_pattern_at_unique:
  "github_pattern_at a s \<Longrightarrow> github_pattern_at b s \<Longrightarrow> a = b"
  using githubMatchAt_pattern [of s a] githubMatchAt_pattern [of s b] by simp

lemma githubMatch_first_pattern:
  assumes "github_pattern_at owner (drop n s)"
  shows "\<exists>found i. githubMatch s = Some found \<and> i \<le> n \<and> github_pattern_at found (drop i s)
           \<and> (\<forall>j<i. \<forall>o'. \<not> github_pattern_at o' (drop j s))"
  using assms
proof (induction s arbitrary: n)
  case Nil
  then show ?case by (simp add: github_pattern_at_def)
next
  case (Cons c cs)
  show ?case
  proof (cases "githubMatchAt (c # cs)")
    case (Some found)
    then have "githubMatch (c # cs) = Some found" by simp
    moreover from Some have "github_pattern_at found (drop 0 (c # cs))"
      by (simp add: githubMatchAt_pattern)
    ultimately show ?thesis by (intro exI [of _ found] exI [of _ 0]) simp
  next
    case None
    then have no: "\<not> github_pattern_at o' (c # cs)" for o'
      using githubMatchAt_pattern [of "c # cs" o'] by simp
    with Cons.prems obtain m where n: "n = Suc m" by (cases n) auto
    with Cons.prems have "github_pattern_at owner (drop m cs)" by simp
    from Cons.IH [OF this] obtain found i where f: "githubMatch cs = Some found" "i \<le> m"
      "github_pattern_at found (drop i cs)" "\<forall>j<i. \<forall>o'. \<not> github_pattern_at o' (drop j cs)"
      by blast
    from None f(1) have 1: "githubMatch (c # cs) = Some found" by simp
    have 2: "\<forall>j<Suc i. \<forall>o'. \<not> github_pattern_at o' (drop j (c # cs))"
    proof (intro allI impI)
      fix j o' assume "j < Suc i"
      show "\<not> github_pattern_at o' (drop j (c # cs))"
      proof (cases j)
        case 0
        with no show ?thesis by simp
      next
        case (Suc k)
        with \<open>j < Suc i\<close> f(4) show ?thesis by simp
      qed
    qed
    from 1 2 f(2,3) n show ?thesis
      by (intro exI [of _ found] exI [of _ "Suc i"]) simp
  qed
qed

lemma cleanedRepoUrl_stripped:
  assumes "repoUrl = gitPlus @ cleaned @ dotGit"
    and "gitPlus = ''git+'' \<or> (gitPlus = [] \<and> take 4 repoUrl \<noteq> ''git+'')"
    and "dotGit = ''.git'' \<or> (dotGit = [] \<and> (\<forall>x. cleaned \<noteq> x @ ''.git''))"
  shows "cleanedRepoUrl repoUrl = cleaned"
proof -
  let ?s = "if startsWith ''git+'' repoUrl then drop 4 repoUrl else repoUrl"
  have four: "length ''git+'' = 4" by simp
  have s: "?s = cleaned @ dotGit"
  proof (cases "gitPlus = ''git+''")
    case True
    with assms(1) show ?thesis by (simp add: startsWith_def)
  next
    case False
    with assms(2) have "gitPlus = []" and "take 4 repoUrl \<noteq> ''git+''" by simp_all
    then have "\<not> startsWith ''git+'' repoUrl" and "repoUrl = cleaned @ dotGit"
      unfolding startsWith_def four using assms(1) by simp_all
    then show ?thesis by (simp only: if_False)
  qed
  have "(if endsWith ''.git'' (cleaned @ dotGit)
         then take (length (cleaned @ dotGit) - 4) (cleaned @ dotGit) else cleaned @ dotGit) = cleaned"
  proof (cases "dotGit = ''.git''")
    case True
    then show ?thesis by (simp add: endsWith_def)
  next
    case False
    with assms(3) have d: "dotGit = []" and no: "\<forall>x. cleaned \<noteq> x @ ''.git''" by simp_all
    have "\<not> endsWith ''.git'' cleaned"
    proof
      assume "endsWith ''.git'' cleaned"
      then have "drop (length cleaned - length ''.git'') cleaned = ''.git''"
        unfolding endsWith_def by (rule conjunct2)
      with append_take_drop_id [of "length cleaned - length ''.git''" cleaned]
      have "take (length cleaned - length ''.git'') cleaned @ ''.git'' = cleaned"
        by (simp only:)
      with no show False by metis
    qed
    with d show ?thesis by simp
  qed
  then show ?thesis unfolding cleanedRepoUrl_def Let_def s .
qed

subsection \<open>The downloads request does not decide the outcome\<close>

lemma fetchPackageDownloads_failure:
  assumes "download_failure (fetch_downloads h (''https://api.npmjs.org/downloads/point/last-week/'' @ packageName))"
  shows "fetchPackageDownloads h packageName = None"
proof (cases "fetch_downloads h (''https://api.npmjs.org/downloads/point/last-week/'' @ packageName)")
  case (Inl m)
  then show ?thesis by (simp add: fetchPackageDownloads_def downloads_try_def)
next
  case (Inr response)
  with assms have "status response = 404 \<or> \<not> ok response \<or> isl (json response)"
    by (simp add: download_failure_def)
  moreover have "\<not> ok response" if "status response = 404"
    using that by (simp add: ok_def)
  ultimately have "\<not> ok response \<or> (\<exists>m. json response = Inl m)"
    by (cases "json response") auto
  with Inr show ?thesis
    by (auto simp: fetchPackageDownloads_def downloads_try_def)
qed

lemma fetchDocument_downloads_update:
  "fetchDocument (h\<lparr>fetch_downloads := d\<rparr>) packageName = fetchDocument h packageName"
  by (simp add: fetchDocument_def)

lemma fetchPackageData_Inl_downloads_update:
  assumes "fetchPackageData h packageName requested = Inl e"
  shows "fetchPackageData (h\<lparr>fetch_downloads := d\<rparr>) packageName requested = Inl e"
proof (cases "fetchDocument h packageName")
  case (Inl e')
  with assms show ?thesis by (simp add: fetchPackageData_def fetchDocument_downloads_update)
next
  case (Inr data)
  show ?thesis
  proof (cases "truthy (dist_tags_latest data)")
    case False
    with assms Inr show ?thesis
      by (simp add: fetchPackageData_def fetchDocument_downloads_update truthy_def
          split: option.splits)
  next
    case True
    then obtain l where l: "dist_tags_latest data = Some l" "l \<noteq> []"
      by (auto simp: truthy_def split: option.splits)
    show ?thesis
    proof (cases "get_property (versions data) (versionToFetch l requested)")
      case None
      with assms Inr l show ?thesis
        by (simp add: fetchPackageData_def fetchDocument_downloads_update)
    next
      case (Some vd)
      from fetchPackageData_found [OF Inr l Some] assms show ?thesis by simp
    qed
  qed
qed

lemma fetchPackageData_Inr_downloads_update:
  assumes "fetchPackageData (h\<lparr>fetch_downloads := d\<rparr>) packageName requested = Inr result"
  shows "fetchPackageData h packageName requested
     = Inr (result\<lparr>packageData :=
                     (packageData result)\<lparr>downloadsLastWeek := fetchPackageDownloads h packageName\<rparr>\<rparr>)"
proof -
  from assms obtain data l vd where sel:
    "fetchDocument (h\<lparr>fetch_downloads := d\<rparr>) packageName = Inr data"
    "dist_tags_latest data = Some l" "l \<noteq> []"
    "get_property (versions data) (versionToFetch l requested) = Some vd"
    by (rule fetchPackageData_InrE)
  from sel(1) have doc: "fetchDocument h packageName = Inr data"
    by (simp add: fetchDocument_downloads_update)
  have same: "toLocaleDateString (h\<lparr>fetch_downloads := d\<rparr>) = toLocaleDateString h"
    "toDouble (h\<lparr>fetch_downloads := d\<rparr>) = toDouble h"
    by simp_all
  from assms have "Inr result = fetchPackageData (h\<lparr>fetch_downloads := d\<rparr>) packageName requested"
    by simp
  then have "result = projr (fetchPackageData (h\<lparr>fetch_downloads := d\<rparr>) packageName requested)"
    by (metis sum.sel(2))
  then show ?thesis
    unfolding fetchPackageData_found [OF sel] fetchPackageData_found [OF doc sel(2-4)] same
    by simp
qed

section \<open>The claims\<close>

subsection \<open>C1: the version list\<close>

text \<open>
  C1 says that the returned version list is exactly the keys of \<open>versions\<close>, ordered
  descending by a comparator that splits each key on \<^verbatim>\<open>.\<close> and compares the segments
  position by position as integers, a non-numeric segment and a missing trailing position
  counting as 0, ties keeping their order; and that the keys 1.2.0, 1.10.0, 2.0.0, 1.2.10
  come back as 2.0.0, 1.10.0, 1.2.10, 1.2.0.

  The program converts a segment with \<^verbatim>\<open>Number\<close>, which also reads exponent notation
  (and radix prefixes, signs and surrounding white space). The segment \<^verbatim>\<open>5e-1\<close> is one
  half, which is no integer and lies strictly between 0 and 1: the keys 1.0, 1.5e-1, 1.1
  come back as 1.1, 1.5e-1, 1.0, the middle key strictly between the other two, where the
  order of the specification's words gives 1.1, 1.0, 1.5e-1.
\<close>

theorem version_list_counterexample:
  "map_sum id allVersions
     (fetchPackageData (sample_host (serves fraction_versions) no_stats) ''widget'' None)
     \<noteq> Inr (spec_version_list fraction_versions)
   \<and> map_sum id allVersions
     (fetchPackageData (sample_host (serves fraction_versions) no_stats) ''widget'' None)
     = Inr [''1.1'', ''1.5e-1'', ''1.0'']
   \<and> spec_version_list fraction_versions = [''1.1'', ''1.0'', ''1.5e-1'']
   \<and> Number Fin ''5e-1'' = Fin (1 / 2)
   \<and> compareVersions Fin ''1.1'' ''1.5e-1'' < 0
   \<and> compareVersions Fin ''1.5e-1'' ''1.0'' < 0"
proof -
  let ?h = "sample_host (serves fraction_versions) no_stats"
  have doc: "fetchDocument ?h ''widget'' = Inr fraction_versions"
    by (simp add: fetchDocument_def sample_host_def serves_def ok_def)
  have 1: "array_sort (compareVersions Fin) [''1.0'', ''1.5e-1'', ''1.1''] = [''1.1'', ''1.5e-1'', ''1.0'']"
    by (simp add: compare_eval Number_eval)
  have "map_sum id allVersions (fetchPackageData ?h ''widget'' None) = Inr [''1.1'', ''1.5e-1'', ''1.0'']"
    using fetchPackageData_resolved [OF doc, of "''1.1''" None "sample_version ''1.1'' None None"] 1
    by (simp add: fraction_versions_def sample_document_def versionToFetch_def sample_host_def)
  moreover have "spec_version_list fraction_versions = [''1.1'', ''1.0'', ''1.5e-1'']"
    by (simp add: spec_version_list_def fraction_versions_def sample_document_def spec_compare_def
        spec_segment_def radix_digits_def digits_val_def digit_val_def)
  moreover have "Number Fin ''5e-1'' = Fin (1 / 2)"
    by (simp add: Number_eval)
  moreover have "compareVersions Fin ''1.1'' ''1.5e-1'' < 0"
    "compareVersions Fin ''1.5e-1'' ''1.0'' < 0"
    by (simp_all add: compare_eval Number_eval)
  ultimately show ?thesis by simp
qed

text \<open>
  C1 as amended: whenever resolution succeeds, the returned version list is a
  rearrangement of the keys of \<open>versions\<close>; it is ordered by the comparator (no key is
  followed by one that the comparator puts strictly before it); keys that tie keep the
  order they have in the document; and it is the only list with the last two properties.
  The comparator puts \<open>a\<close> before \<open>b\<close> exactly when, at
  the first position where they differ, \<open>a\<close> has the greater value, and ties exactly when
  no position differs. The value at a position is what \<^verbatim>\<open>Number\<close> gives for the
  segment there, and 0 when the position is missing or \<^verbatim>\<open>Number\<close> gives \<open>NaN\<close>. For
  a run of decimal digits \<^verbatim>\<open>Number\<close> gives the double that the host rounds its integer
  value to, not the integer value as such: it is the integer itself for every run of value
  up to \<open>2 ^ 53\<close> when every integer up to \<open>2 ^ 53\<close> is a double, as it is in binary64,
  and two runs whose values round to the same double have the same value in the
  comparison. When 0, 1, 2 and 10 are doubles, as they are, the four keys of the example
  come back as 2.0.0, 1.10.0, 1.2.10, 1.2.0, in whatever order the document has them.
\<close>

theorem version_list_order:
  assumes doc: "fetchDocument h packageName = Inr data"
    and res: "fetchPackageData h packageName requested = Inr result"
  shows "mset (allVersions result) = mset (map fst (versions data))
    \<and> sorted_wrt (\<lambda>a b. compareVersions (toDouble h) a b \<le> 0) (allVersions result)
    \<and> (\<forall>k. filter (\<lambda>v. compareVersions (toDouble h) v k = 0) (allVersions result)
           = filter (\<lambda>v. compareVersions (toDouble h) v k = 0) (map fst (versions data)))
    \<and> (\<forall>ys. sorted_wrt (\<lambda>a b. compareVersions (toDouble h) a b \<le> 0) ys
             \<and> (\<forall>k. filter (\<lambda>v. compareVersions (toDouble h) v k = 0) ys
                    = filter (\<lambda>v. compareVersions (toDouble h) v k = 0) (map fst (versions data)))
           \<longrightarrow> ys = allVersions result)
    \<and> (\<forall>a b. (compareVersions (toDouble h) a b < 0
                  \<longleftrightarrow> precedes (part_or_zero (parts (toDouble h) a)) (part_or_zero (parts (toDouble h) b)))
             \<and> (compareVersions (toDouble h) a b = 0
                  \<longleftrightarrow> part_or_zero (parts (toDouble h) a) = part_or_zero (parts (toDouble h) b)))
    \<and> (\<forall>v i. part_or_zero (parts (toDouble h) v) i =
             (if i < length (split_str (CHR ''.'') v)
                 \<and> Number (toDouble h) (split_str (CHR ''.'') v ! i) \<noteq> NaN
              then Number (toDouble h) (split_str (CHR ''.'') v ! i) else Fin 0))
    \<and> (\<forall>s. radix_digits 10 s \<longrightarrow> Number (toDouble h) s = toDouble h (of_nat (digits_val 10 s)))
    \<and> ((\<forall>n. n \<le> 2 ^ 53 \<longrightarrow> toDouble h (of_nat n) = Fin (of_nat n))
         \<longrightarrow> (\<forall>s. radix_digits 10 s \<and> digits_val 10 s \<le> 2 ^ 53
                \<longrightarrow> Number (toDouble h) s = Fin (of_nat (digits_val 10 s))))
    \<and> (\<forall>s t. radix_digits 10 s \<and> radix_digits 10 t
             \<and> toDouble h (of_nat (digits_val 10 s)) = toDouble h (of_nat (digits_val 10 t))
           \<longrightarrow> Number (toDouble h) s = Number (toDouble h) t)
    \<and> (toDouble h 0 = Fin 0 \<and> toDouble h 1 = Fin 1 \<and> toDouble h 2 = Fin 2 \<and> toDouble h 10 = Fin 10
         \<and> mset (map fst (versions data)) = {#''1.2.0'', ''1.10.0'', ''2.0.0'', ''1.2.10''#}
       \<longrightarrow> allVersions result = [''2.0.0'', ''1.10.0'', ''1.2.10'', ''1.2.0''])"
proof -
  let ?cmp = "compareVersions (toDouble h)"
  from res obtain data' l vd where
    "fetchDocument h packageName = Inr data'" "dist_tags_latest data' = Some l" "l \<noteq> []"
    "get_property (versions data') (versionToFetch l requested) = Some vd"
    by (rule fetchPackageData_InrE)
  with doc res have all: "allVersions result = array_sort ?cmp (map fst (versions data))"
    by (auto simp: fetchPackageData_found)
  have perm: "mset (allVersions result) = mset (map fst (versions data))"
    unfolding all by (rule mset_array_sort)
  have sorted: "sorted_wrt (\<lambda>a b. ?cmp a b \<le> 0) (allVersions result)"
    unfolding all by (rule sorted_array_sort) (blast intro: compareVersions_trans compareVersions_total)+
  have stable: "filter (\<lambda>v. ?cmp v k = 0) (allVersions result)
      = filter (\<lambda>v. ?cmp v k = 0) (map fst (versions data))" for k
  proof -
    have "?cmp x y \<le> 0" if "?cmp x k = 0" "?cmp y k = 0" for x y
    proof -
      from that have "?cmp x y = 0" by (simp add: compareVersions_zero)
      then show ?thesis by simp
    qed
    then show ?thesis unfolding all by (rule stable_array_sort)
  qed
  have example: "allVersions result = [''2.0.0'', ''1.10.0'', ''1.2.10'', ''1.2.0'']"
    if ex: "toDouble h 0 = Fin 0" "toDouble h 1 = Fin 1" "toDouble h 2 = Fin 2" "toDouble h 10 = Fin 10"
      and keys: "mset (map fst (versions data)) = {#''1.2.0'', ''1.10.0'', ''2.0.0'', ''1.2.10''#}"
  proof (rule sorted_unique [where cmp = ?cmp])
    show "\<not> ?cmp y x \<le> 0" if "?cmp x y < 0" for x y
      using that compareVersions_consistent(2) [of "toDouble h" x y] by simp
    show "sorted_wrt (\<lambda>a b. ?cmp a b < 0) [''2.0.0'', ''1.10.0'', ''1.2.10'', ''1.2.0'']"
      using ex by (rule example_sorted)
    show "sorted_wrt (\<lambda>a b. ?cmp a b \<le> 0) (allVersions result)" by (rule sorted)
    show "mset (allVersions result) = mset [''2.0.0'', ''1.10.0'', ''1.2.10'', ''1.2.0'']"
      using perm keys by simp
  qed
  have unique: "ys = allVersions result"
    if "sorted_wrt (\<lambda>a b. ?cmp a b \<le> 0) ys"
      and "\<And>k. filter (\<lambda>v. ?cmp v k = 0) ys = filter (\<lambda>v. ?cmp v k = 0) (map fst (versions data))"
    for ys
    unfolding all using that by (rule array_sort_versions_unique)
  show ?thesis
  proof (intro conjI)
    show "mset (allVersions result) = mset (map fst (versions data))"
      by (rule perm)
    show "sorted_wrt (\<lambda>a b. ?cmp a b \<le> 0) (allVersions result)"
      by (rule sorted)
    show "\<forall>k. filter (\<lambda>v. ?cmp v k = 0) (allVersions result)
           = filter (\<lambda>v. ?cmp v k = 0) (map fst (versions data))"
      using stable by blast
    show "\<forall>ys. sorted_wrt (\<lambda>a b. ?cmp a b \<le> 0) ys
             \<and> (\<forall>k. filter (\<lambda>v. ?cmp v k = 0) ys
                    = filter (\<lambda>v. ?cmp v k = 0) (map fst (versions data)))
           \<longrightarrow> ys = allVersions result"
      using unique by blast
    show "\<forall>a b. (?cmp a b < 0
                  \<longleftrightarrow> precedes (part_or_zero (parts (toDouble h) a)) (part_or_zero (parts (toDouble h) b)))
             \<and> (?cmp a b = 0
                  \<longleftrightarrow> part_or_zero (parts (toDouble h) a) = part_or_zero (parts (toDouble h) b))"
      by (simp add: compareVersions_neg compareVersions_zero)
    show "\<forall>v i. part_or_zero (parts (toDouble h) v) i =
             (if i < length (split_str (CHR ''.'') v)
                 \<and> Number (toDouble h) (split_str (CHR ''.'') v ! i) \<noteq> NaN
              then Number (toDouble h) (split_str (CHR ''.'') v ! i) else Fin 0)"
      by (simp add: part_or_zero_parts)
    show "\<forall>s. radix_digits 10 s \<longrightarrow> Number (toDouble h) s = toDouble h (of_nat (digits_val 10 s))"
      by (simp add: Number_digits)
    show "(\<forall>n. n \<le> 2 ^ 53 \<longrightarrow> toDouble h (of_nat n) = Fin (of_nat n))
         \<longrightarrow> (\<forall>s. radix_digits 10 s \<and> digits_val 10 s \<le> 2 ^ 53
                \<longrightarrow> Number (toDouble h) s = Fin (of_nat (digits_val 10 s)))"
      by (simp add: Number_digits)
    show "\<forall>s t. radix_digits 10 s \<and> radix_digits 10 t
             \<and> toDouble h (of_nat (digits_val 10 s)) = toDouble h (of_nat (digits_val 10 t))
           \<longrightarrow> Number (toDouble h) s = Number (toDouble h) t"
      by (simp add: Number_digits)
    show "toDouble h 0 = Fin 0 \<and> toDouble h 1 = Fin 1 \<and> toDouble h 2 = Fin 2 \<and> toDouble h 10 = Fin 10
         \<and> mset (map fst (versions data)) = {#''1.2.0'', ''1.10.0'', ''2.0.0'', ''1.2.10''#}
       \<longrightarrow> allVersions result = [''2.0.0'', ''1.10.0'', ''1.2.10'', ''1.2.0'']"
      using example by blast
  qed
qed

theorem version_list_order_witness:
  "fetchDocument (sample_host (serves four_versions) no_stats) ''widget'' = Inr four_versions
   \<and> (\<exists>result. fetchPackageData (sample_host (serves four_versions) no_stats) ''widget'' None = Inr result
        \<and> allVersions result = [''2.0.0'', ''1.10.0'', ''1.2.10'', ''1.2.0''])
   \<and> Number (toDouble (sample_host (serves four_versions) no_stats)) ''10'' = Fin 10"
proof -
  let ?h = "sample_host (serves four_versions) no_stats"
  have doc: "fetchDocument ?h ''widget'' = Inr four_versions"
    by (simp add: fetchDocument_def sample_host_def serves_def ok_def)
  have "\<exists>result. fetchPackageData ?h ''widget'' None = Inr result"
    using fetchPackageData_resolved [OF doc, of "''2.0.0''" None "sample_version ''2.0.0'' None None"]
    by (simp add: four_versions_def sample_document_def versionToFetch_def)
  then obtain result where res: "fetchPackageData ?h ''widget'' None = Inr result" ..
  have exact: "toDouble ?h 0 = Fin 0" "toDouble ?h 1 = Fin 1" "toDouble ?h 2 = Fin 2"
    "toDouble ?h 10 = Fin 10"
    by (simp_all add: sample_host_def)
  have keys: "mset (map fst (versions four_versions)) = {#''1.2.0'', ''1.10.0'', ''2.0.0'', ''1.2.10''#}"
    by (simp add: four_versions_def sample_document_def)
  note order = version_list_order [OF doc res]
  from order exact keys
  have 1: "allVersions result = [''2.0.0'', ''1.10.0'', ''1.2.10'', ''1.2.0'']" by blast
  have every: "\<forall>n. n \<le> 2 ^ 53 \<longrightarrow> toDouble ?h (of_nat n) = Fin (of_nat n)"
    by (simp add: sample_host_def)
  have ten: "radix_digits 10 ''10'' \<and> digits_val 10 ''10'' \<le> 2 ^ 53"
    by (simp add: radix_digits_def digits_val_def digit_val_def)
  have "\<forall>s. radix_digits 10 s \<and> digits_val 10 s \<le> 2 ^ 53
      \<longrightarrow> Number (toDouble ?h) s = Fin (of_nat (digits_val 10 s))"
    using order every by blast
  with ten have "Number (toDouble ?h) ''10'' = Fin (of_nat (digits_val 10 ''10''))"
    by blast
  then have 2: "Number (toDouble ?h) ''10'' = Fin 10"
    by (simp add: digits_val_def digit_val_def)
  from doc res 1 2 show ?thesis by blast
qed

subsection \<open>C2: resolving a requested version\<close>

text \<open>
  C2 says that for every registry document with a latest tag and every key \<open>v\<close> of
  \<open>versions\<close>, resolving with requested version \<open>v\<close> succeeds and the version field of
  the result equals \<open>v\<close>.

  The program copies the version field from the record stored under \<open>v\<close>
  (\<^verbatim>\<open>version: versionData.version\<close>), not from the key. In the document
  \<open>mislabelled_version\<close> the record under the key 1.0.0 carries the version 1.0.1, and
  resolving 1.0.0 yields a package of version 1.0.1.
\<close>

theorem requested_version_counterexample:
  "map_of (versions mislabelled_version) ''1.0.0'' \<noteq> None
   \<and> dist_tags_latest mislabelled_version = Some ''1.0.0''
   \<and> map_sum id (\<lambda>r. version (packageData r))
        (fetchPackageData (sample_host (serves mislabelled_version) no_stats) ''widget''
           (Some ''1.0.0''))
      = Inr (Some ''1.0.1'')"
  using fetchPackageData_resolved
    [OF served_sample, of mislabelled_version "''1.0.0''" "Some ''1.0.0''"
       "sample_version ''1.0.1'' None None" no_stats "''widget''"]
  by (simp add: mislabelled_version_def sample_document_def versionToFetch_def sample_version_def)

text \<open>
  C2 as amended: for every registry document with a non-empty latest tag and every
  non-empty key \<open>v\<close> of \<open>versions\<close>, resolving with requested version \<open>v\<close> succeeds, and
  the version field of the result is the version field of the record stored under \<open>v\<close>;
  it equals \<open>v\<close> whenever that record's version field agrees with its key.
\<close>

theorem requested_version_resolves:
  assumes "fetchDocument h packageName = Inr data"
    and "dist_tags_latest data = Some latestVersion" "latestVersion \<noteq> []"
    and "v \<noteq> []" "map_of (versions data) v = Some versionData"
  shows "\<exists>result. fetchPackageData h packageName (Some v) = Inr result
           \<and> version (packageData result) = Some (v_version versionData)
           \<and> (v_version versionData = v \<longrightarrow> version (packageData result) = Some v)"
  using assms fetchPackageData_resolved [of h packageName data latestVersion "Some v" versionData]
  by (simp add: versionToFetch_def)

text \<open>On \<open>four_versions\<close>, the request for 1.10.0 resolves to version 1.10.0.\<close>

theorem requested_version_resolves_witness:
  "\<exists>result. fetchPackageData (sample_host (serves four_versions) no_stats) ''widget''
               (Some ''1.10.0'') = Inr result
     \<and> version (packageData result) = Some ''1.10.0''"
  using requested_version_resolves
    [OF served_sample, of four_versions "''2.0.0''" "''1.10.0''"
       "sample_version ''1.10.0'' None None" no_stats "''widget''"]
  by (simp add: four_versions_def sample_document_def sample_version_def)

subsection \<open>C3: an author given as a string\<close>

text \<open>
  C3 says that for every record whose author is a string, the resolved author is the part
  of the string before the first \<^verbatim>\<open><\<close>, trimmed, also for strings that begin with
  \<^verbatim>\<open><\<close>.

  The match \<^verbatim>\<open>/^([^<]+)/\<close> needs at least one character before \<^verbatim>\<open><\<close>; when it fails
  the program keeps the whole string (\<^verbatim>\<open>nameMatch ? nameMatch[1].trim() : versionData.author\<close>).
  The author \<^verbatim>\<open><jane@example.com>\<close> therefore resolves to itself, while the part before
  its first \<^verbatim>\<open><\<close> is empty.
\<close>

theorem author_string_counterexample:
  "map_sum id (\<lambda>r. author (packageData r))
     (fetchPackageData (sample_host (serves authored) no_stats) ''widget'' (Some ''1.0.0''))
     = Inr (Some ''<jane@example.com>'')
   \<and> trim (takeWhile (\<lambda>c. c \<noteq> CHR ''<'') ''<jane@example.com>'') = ''''"
  using fetchPackageData_resolved
    [OF served_sample, of authored "''2.0.0''" "Some ''1.0.0''"
       "sample_version ''1.0.0'' (Some (AuthorString ''<jane@example.com>'')) None"
       no_stats "''widget''"]
  by (simp add: authored_def sample_document_def versionToFetch_def sample_version_def
      authorFromField_def authorFromRepo_def nameMatch_def js_or_def trim_def)

text \<open>
  C3 as amended: for every record whose author is a string \<open>s\<close>, take the part of \<open>s\<close>
  before the first \<^verbatim>\<open><\<close>, trimmed. When that part is not empty, it is the resolved
  author (so \<^verbatim>\<open>Jane Doe <jane@example.com>\<close> resolves to \<^verbatim>\<open>Jane Doe\<close>). When \<open>s\<close>
  begins with \<^verbatim>\<open><\<close>, the resolved author is \<open>s\<close> itself. In the remaining cases (\<open>s\<close> is
  empty, or only white space precedes the first \<^verbatim>\<open><\<close>) the string gives no author, and
  the resolved author is what the repository URL or the sentinel gives, as for a record
  without author.
\<close>

theorem author_string_resolved:
  assumes "fetchDocument h packageName = Inr data"
    and "dist_tags_latest data = Some latestVersion" "latestVersion \<noteq> []"
    and "map_of (versions data) (versionToFetch latestVersion requested) = Some versionData"
    and "v_author versionData = Some (AuthorString s)"
  shows "\<exists>result. fetchPackageData h packageName requested = Inr result
      \<and> (trim (takeWhile (\<lambda>c. c \<noteq> CHR ''<'') s) \<noteq> []
           \<longrightarrow> author (packageData result) = Some (trim (takeWhile (\<lambda>c. c \<noteq> CHR ''<'') s)))
      \<and> (s \<noteq> [] \<and> hd s = CHR ''<'' \<longrightarrow> author (packageData result) = Some s)
      \<and> (trim (takeWhile (\<lambda>c. c \<noteq> CHR ''<'') s) = [] \<and> (s = [] \<or> hd s \<noteq> CHR ''<'')
           \<longrightarrow> author (packageData result)
               = js_or (authorFromRepo None
                          (js_or (map_option url (v_repository versionData))
                                 (map_option url (r_repository data))))
                       (Some ''N/A''))"
proof -
  let ?p = "takeWhile (\<lambda>c. c \<noteq> CHR ''<'') s"
  let ?repo = "js_or (map_option url (v_repository versionData)) (map_option url (r_repository data))"
  have 1: "authorFromField (v_author versionData) = Some (trim ?p)" if "trim ?p \<noteq> []"
  proof -
    from that have "?p \<noteq> []" by (auto simp: trim_def)
    then have "s \<noteq> []" by auto
    with \<open>?p \<noteq> []\<close> show ?thesis by (simp add: assms(5) authorFromField_def nameMatch_def)
  qed
  have 2: "authorFromField (v_author versionData) = Some s" if "s \<noteq> []" "hd s = CHR ''<''"
  proof -
    from that have "?p = []" by (cases s) auto
    with that show ?thesis by (simp add: assms(5) authorFromField_def nameMatch_def)
  qed
  have 3: "authorFromField (v_author versionData) = None
      \<or> authorFromField (v_author versionData) = Some []"
    if "trim ?p = []" "s = [] \<or> hd s \<noteq> CHR ''<''"
  proof (cases "s = []")
    case True
    then show ?thesis by (simp add: assms(5) authorFromField_def)
  next
    case False
    with that have "?p \<noteq> []" by (cases s) auto
    with False that show ?thesis by (simp add: assms(5) authorFromField_def nameMatch_def)
  qed
  from resolved_author [OF assms(1-4)] obtain result
    where res: "fetchPackageData h packageName requested = Inr result"
      and au: "author (packageData result)
               = js_or (authorFromRepo (authorFromField (v_author versionData)) ?repo) (Some ''N/A'')"
    by blast
  have c1: "author (packageData result) = Some (trim ?p)" if "trim ?p \<noteq> []"
    using that 1 au by (simp add: authorFromRepo_truthy js_or_def)
  have c2: "author (packageData result) = Some s" if "s \<noteq> []" "hd s = CHR ''<''"
    using that 2 au by (simp add: authorFromRepo_truthy js_or_def)
  have c3: "author (packageData result) = js_or (authorFromRepo None ?repo) (Some ''N/A'')"
    if "trim ?p = []" "s = [] \<or> hd s \<noteq> CHR ''<''"
    using 3 [OF that] au by (auto simp: js_or_sentinel_blank)
  from res c1 c2 c3 show ?thesis by blast
qed

text \<open>The author \<^verbatim>\<open>Jane Doe <jane@example.com>\<close> of version 1.2.0 of \<open>authored\<close> resolves to \<^verbatim>\<open>Jane Doe\<close>.\<close>

theorem author_string_resolved_witness:
  "\<exists>result. fetchPackageData (sample_host (serves authored) no_stats) ''widget'' (Some ''1.2.0'')
       = Inr result
     \<and> author (packageData result) = Some ''Jane Doe''"
proof -
  have "trim (takeWhile (\<lambda>c. c \<noteq> CHR ''<'') ''Jane Doe <jane@example.com>'') = ''Jane Doe''"
    by (simp add: trim_def is_space_def)
  with author_string_resolved
    [OF served_sample, of authored "''2.0.0''" "Some ''1.2.0''"
       "sample_version ''1.2.0'' (Some (AuthorString ''Jane Doe <jane@example.com>'')) None"
       "''Jane Doe <jane@example.com>''" no_stats "''widget''"]
  show ?thesis
    by (simp add: authored_def sample_document_def versionToFetch_def sample_version_def)
qed

subsection \<open>C4: the latest tag\<close>

text \<open>
  C4 says that resolution fails with NoLatestTag only when the latest tag is needed: a
  document without the tag whose \<open>versions\<close> has the requested version \<open>v\<close> resolves.

  The program tests \<^verbatim>\<open>if (!latestVersion)\<close> right after reading the document, before it
  looks at the requested version. The document \<open>untagged\<close> has no latest tag and has the
  version 1.0.0; resolving 1.0.0 fails with NoLatestTag.
\<close>

theorem latest_tag_counterexample:
  "map_of (versions untagged) ''1.0.0'' \<noteq> None
   \<and> dist_tags_latest untagged = None
   \<and> fetchPackageData (sample_host (serves untagged) no_stats) ''widget'' (Some ''1.0.0'')
      = Inl (NoLatestTag (''Could not determine latest version for package '' @ [dq] @ ''widget''
                           @ [dq] @ ''.''))"
  by (simp add: fetchPackageData_def served_sample untagged_def sample_document_def)

text \<open>
  C4 as amended: once the document is fetched, resolution fails with NoLatestTag exactly
  when the document has no latest tag or an empty one, whether or not a version is
  requested and whether or not \<open>versions\<close> has it; the message names the package. Only
  when the tag is present and not empty is a target chosen: it is the requested version
  when a non-empty one is given, and the latest tag otherwise. Resolution then returns
  the record that \<open>versions\<close> has under the target, and fails with VersionNotFound, naming
  the target, when the target is neither a key of \<open>versions\<close> nor a name inherited from
  \<^verbatim>\<open>Object.prototype\<close>.
\<close>

theorem latest_tag_checked_first:
  assumes "fetchDocument h packageName = Inr data"
  shows "(\<exists>m. fetchPackageData h packageName requested = Inl (NoLatestTag m))
           = (\<not> truthy (dist_tags_latest data))
     \<and> (fetchPackageData h packageName requested
           = Inl (NoLatestTag (''Could not determine latest version for package '' @ [dq]
                                @ packageName @ [dq] @ ''.'')))
           = (\<not> truthy (dist_tags_latest data))
     \<and> (\<forall>latestVersion target.
           dist_tags_latest data = Some latestVersion \<and> latestVersion \<noteq> []
           \<and> ((requested = Some target \<and> target \<noteq> [])
                \<or> ((requested = None \<or> requested = Some []) \<and> target = latestVersion))
           \<longrightarrow> (\<forall>versionData. map_of (versions data) target = Some versionData
                  \<longrightarrow> (\<exists>result. fetchPackageData h packageName requested = Inr result
                         \<and> name (packageData result) = Some (v_name versionData)
                         \<and> version (packageData result) = Some (v_version versionData)
                         \<and> description (packageData result) = v_description versionData
                         \<and> license (packageData result) = v_license versionData
                         \<and> dependencies (packageData result) = v_dependencies versionData
                         \<and> devDependencies (packageData result) = v_devDependencies versionData))
               \<and> (target \<notin> set (map fst (versions data)) \<and> \<not> inherits target
                  \<longrightarrow> fetchPackageData h packageName requested
                      = Inl (VersionNotFound (''Could not find data for version '' @ [dq]
                               @ target @ [dq] @ '' of package '' @ [dq] @ packageName @ [dq]
                               @ ''.''))))"
proof (intro conjI allI impI)
  show tag: "(\<exists>m. fetchPackageData h packageName requested = Inl (NoLatestTag m))
           = (\<not> truthy (dist_tags_latest data))"
  proof (cases "truthy (dist_tags_latest data)")
    case False
    then have "fetchPackageData h packageName requested
        = Inl (NoLatestTag (''Could not determine latest version for package '' @ [dq]
                             @ packageName @ [dq] @ ''.''))"
      by (simp add: fetchPackageData_def assms truthy_def split: option.splits)
    with False show ?thesis by simp
  next
    case True
    then obtain l where l: "dist_tags_latest data = Some l" "l \<noteq> []"
      by (auto simp: truthy_def split: option.splits)
    have "fetchPackageData h packageName requested \<noteq> Inl (NoLatestTag m)" for m
    proof (cases "get_property (versions data) (versionToFetch l requested)")
      case None
      with l show ?thesis by (simp add: fetchPackageData_def assms)
    next
      case (Some vd)
      from fetchPackageData_found [OF assms l Some] show ?thesis by simp
    qed
    with True show ?thesis by simp
  qed
  show "(fetchPackageData h packageName requested
           = Inl (NoLatestTag (''Could not determine latest version for package '' @ [dq]
                                @ packageName @ [dq] @ ''.'')))
           = (\<not> truthy (dist_tags_latest data))"
  proof (cases "truthy (dist_tags_latest data)")
    case False
    then have "fetchPackageData h packageName requested
        = Inl (NoLatestTag (''Could not determine latest version for package '' @ [dq]
                             @ packageName @ [dq] @ ''.''))"
      by (simp add: fetchPackageData_def assms truthy_def split: option.splits)
    with False show ?thesis by simp
  next
    case True
    with tag show ?thesis by blast
  qed
next
  fix latestVersion target versionData
  assume sel: "dist_tags_latest data = Some latestVersion \<and> latestVersion \<noteq> []
           \<and> ((requested = Some target \<and> target \<noteq> [])
                \<or> ((requested = None \<or> requested = Some []) \<and> target = latestVersion))"
    and rec: "map_of (versions data) target = Some versionData"
  from sel have t: "versionToFetch latestVersion requested = target"
    by (auto simp: versionToFetch_def)
  from sel have l: "dist_tags_latest data = Some latestVersion" "latestVersion \<noteq> []"
    by simp_all
  from rec have "map_of (versions data) (versionToFetch latestVersion requested) = Some versionData"
    by (simp only: t)
  with assms l show "\<exists>result. fetchPackageData h packageName requested = Inr result
                         \<and> name (packageData result) = Some (v_name versionData)
                         \<and> version (packageData result) = Some (v_version versionData)
                         \<and> description (packageData result) = v_description versionData
                         \<and> license (packageData result) = v_license versionData
                         \<and> dependencies (packageData result) = v_dependencies versionData
                         \<and> devDependencies (packageData result) = v_devDependencies versionData"
    by (rule resolved_fields)
next
  fix latestVersion target
  assume sel: "dist_tags_latest data = Some latestVersion \<and> latestVersion \<noteq> []
           \<and> ((requested = Some target \<and> target \<noteq> [])
                \<or> ((requested = None \<or> requested = Some []) \<and> target = latestVersion))"
    and miss: "target \<notin> set (map fst (versions data)) \<and> \<not> inherits target"
  from sel have t: "versionToFetch latestVersion requested = target"
    by (auto simp: versionToFetch_def)
  from sel have l: "dist_tags_latest data = Some latestVersion" "latestVersion \<noteq> []"
    by simp_all
  from miss have "versionToFetch latestVersion requested \<notin> set (map fst (versions data))"
    "\<not> inherits (versionToFetch latestVersion requested)"
    unfolding t by simp_all
  from target_not_found [OF assms l this]
  show "fetchPackageData h packageName requested
      = Inl (VersionNotFound (''Could not find data for version '' @ [dq]
               @ target @ [dq] @ '' of package '' @ [dq] @ packageName @ [dq] @ ''.''))"
    by (simp only: t)
qed

text \<open>
  The document \<open>untagged\<close> fails with NoLatestTag; \<open>four_versions\<close>, which has the tag, does
  not: the request for 1.2.0 returns version 1.2.0 and no request returns the latest
  version 2.0.0.
\<close>

theorem latest_tag_checked_first_witness:
  "(\<exists>m. fetchPackageData (sample_host (serves untagged) no_stats) ''widget'' (Some ''1.0.0'')
         = Inl (NoLatestTag m))
   \<and> \<not> (\<exists>m. fetchPackageData (sample_host (serves four_versions) no_stats) ''widget''
              (Some ''1.2.0'') = Inl (NoLatestTag m))
   \<and> (\<exists>result. fetchPackageData (sample_host (serves four_versions) no_stats) ''widget''
                  (Some ''1.2.0'') = Inr result
         \<and> version (packageData result) = Some ''1.2.0'')
   \<and> (\<exists>result. fetchPackageData (sample_host (serves four_versions) no_stats) ''widget'' None
                  = Inr result
         \<and> version (packageData result) = Some ''2.0.0'')"
proof -
  let ?h = "sample_host (serves four_versions) no_stats"
  note u = latest_tag_checked_first
    [OF served_sample, of untagged no_stats "''widget''" "Some ''1.0.0''"]
  note f = latest_tag_checked_first
    [OF served_sample, of four_versions no_stats "''widget''" "Some ''1.2.0''"]
  note n = latest_tag_checked_first
    [OF served_sample, of four_versions no_stats "''widget''" None]
  have 1: "\<exists>m. fetchPackageData (sample_host (serves untagged) no_stats) ''widget''
      (Some ''1.0.0'') = Inl (NoLatestTag m)"
    using u [THEN conjunct1] by (simp add: untagged_def sample_document_def)
  have 2: "\<not> (\<exists>m. fetchPackageData ?h ''widget'' (Some ''1.2.0'') = Inl (NoLatestTag m))"
    using f [THEN conjunct1] by (simp add: four_versions_def sample_document_def)
  have l: "dist_tags_latest four_versions = Some ''2.0.0''"
    by (simp add: four_versions_def sample_document_def)
  have r1: "map_of (versions four_versions) ''1.2.0'' = Some (sample_version ''1.2.0'' None None)"
    and r2: "map_of (versions four_versions) ''2.0.0'' = Some (sample_version ''2.0.0'' None None)"
    by (simp_all add: four_versions_def sample_document_def)
  from f [THEN conjunct2, THEN conjunct2, rule_format, of "''2.0.0''" "''1.2.0''", THEN conjunct1,
      rule_format, OF _ r1] l
  have 3: "\<exists>result. fetchPackageData ?h ''widget'' (Some ''1.2.0'') = Inr result
         \<and> version (packageData result) = Some ''1.2.0''"
    by (auto simp: sample_version_def)
  from n [THEN conjunct2, THEN conjunct2, rule_format, of "''2.0.0''" "''2.0.0''", THEN conjunct1,
      rule_format, OF _ r2] l
  have 4: "\<exists>result. fetchPackageData ?h ''widget'' None = Inr result
         \<and> version (packageData result) = Some ''2.0.0''"
    by (auto simp: sample_version_def)
  from 1 2 3 4 show ?thesis by (intro conjI)
qed

subsection \<open>C5: the owner of a GitHub repository as author\<close>

text \<open>
  C5: for every record with no author field whose repository URL (of the record, else of
  the document), after a leading \<^verbatim>\<open>git+\<close> and a trailing \<^verbatim>\<open>.git\<close> are removed,
  matches \<^verbatim>\<open>github.com/<owner>/<repo>\<close>, the resolved author is the owner.

  The record is the one that \<open>versions\<close> has under the target (the requested version when a
  non-empty one is given, else the latest tag). The repository URL is the record's, or the
  document's when the record has none or an empty one. It reads \<open>gitPlus @ cleaned @ dotGit\<close>
  where \<open>gitPlus\<close> is \<^verbatim>\<open>git+\<close>, or nothing when the URL does not begin with \<^verbatim>\<open>git+\<close>, and
  \<open>dotGit\<close> is \<^verbatim>\<open>.git\<close>, or nothing when what is left does not end with \<^verbatim>\<open>.git\<close>. The
  pattern \<^verbatim>\<open>github.com/<owner>/<repo>\<close> is found at position \<open>n\<close> of \<open>cleaned\<close>. Then
  resolution succeeds and the author is the owner of the first place of \<open>cleaned\<close> that has
  the pattern; so it is \<open>owner\<close> when no place before \<open>n\<close> has the pattern. The URL
  \<^verbatim>\<open>git+https://github.com/acme/widget.git\<close> gives the author \<^verbatim>\<open>acme\<close>.
\<close>

theorem github_owner_is_author:
  assumes "fetchDocument h packageName = Inr data"
    and "dist_tags_latest data = Some latestVersion" "latestVersion \<noteq> []"
    and "(requested = Some target \<and> target \<noteq> [])
         \<or> ((requested = None \<or> requested = Some []) \<and> target = latestVersion)"
    and "map_of (versions data) target = Some versionData"
    and "v_author versionData = None"
    and "(\<exists>r. v_repository versionData = Some r \<and> url r = repoUrl)
         \<or> ((v_repository versionData = None
               \<or> (\<exists>r. v_repository versionData = Some r \<and> url r = []))
             \<and> (\<exists>r. r_repository data = Some r \<and> url r = repoUrl))"
    and "repoUrl = gitPlus @ cleaned @ dotGit"
    and "gitPlus = ''git+'' \<or> (gitPlus = [] \<and> take 4 repoUrl \<noteq> ''git+'')"
    and "dotGit = ''.git'' \<or> (dotGit = [] \<and> (\<forall>x. cleaned \<noteq> x @ ''.git''))"
    and "github_pattern_at owner (drop n cleaned)"
  shows "\<exists>result found i. fetchPackageData h packageName requested = Inr result
      \<and> author (packageData result) = Some found
      \<and> i \<le> n \<and> github_pattern_at found (drop i cleaned)
      \<and> (\<forall>j<i. \<forall>o'. \<not> github_pattern_at o' (drop j cleaned))
      \<and> ((\<forall>j<n. \<forall>o'. \<not> github_pattern_at o' (drop j cleaned)) \<longrightarrow> found = owner)"
proof -
  from assms(4) have t: "versionToFetch latestVersion requested = target"
    by (auto simp: versionToFetch_def)
  from assms(5) have sel: "map_of (versions data) (versionToFetch latestVersion requested)
      = Some versionData"
    unfolding t .
  have c: "cleanedRepoUrl repoUrl = cleaned"
    using assms(8-10) by (rule cleanedRepoUrl_stripped)
  from assms(11) have "drop n cleaned \<noteq> []"
    by (auto simp: github_pattern_at_def)
  then have "cleaned \<noteq> []" by auto
  with assms(8) have ne: "repoUrl \<noteq> []" by simp
  from assms(7) ne
  have ru: "js_or (map_option url (v_repository versionData)) (map_option url (r_repository data))
      = Some repoUrl"
    by (auto simp: js_or_def)
  from githubMatch_first_pattern [OF assms(11)] obtain found i where
    f: "githubMatch cleaned = Some found" "i \<le> n" "github_pattern_at found (drop i cleaned)"
       "\<forall>j<i. \<forall>o'. \<not> github_pattern_at o' (drop j cleaned)"
    by blast
  from f(3) have fne: "found \<noteq> []" by (auto simp: github_pattern_at_def)
  have "authorFromRepo (authorFromField (v_author versionData)) (Some repoUrl) = Some found"
    using assms(6) ne fne f(1) by (simp add: authorFromRepo_def authorFromField_def c)
  moreover from resolved_author [OF assms(1-3) sel] obtain result
    where r: "fetchPackageData h packageName requested = Inr result"
      and "author (packageData result)
           = js_or (authorFromRepo (authorFromField (v_author versionData)) (Some repoUrl))
                   (Some ''N/A'')"
    unfolding ru by blast
  ultimately have a: "author (packageData result) = Some found"
    using fne by (simp add: js_or_def)
  have "found = owner" if first: "\<forall>j<n. \<forall>o'. \<not> github_pattern_at o' (drop j cleaned)"
  proof -
    from first f(3) have "\<not> i < n" by blast
    with f(2) have "i = n" by simp
    with f(3) assms(11) show ?thesis by (blast intro: github_pattern_at_unique)
  qed
  with r a f(2-4) show ?thesis by blast
qed

text \<open>
  Version 2.0.0 of \<open>authored\<close> has no author and the repository URL of the example, with
  the pattern at position 8. A document whose versions have no repository and whose own
  repository is \<^verbatim>\<open>https://github.com/acme/widget\<close> gives the same author.
\<close>

theorem github_owner_is_author_witness:
  "(\<exists>result. fetchPackageData (sample_host (serves authored) no_stats) ''widget'' None = Inr result
        \<and> author (packageData result) = Some ''acme'')
   \<and> (\<exists>result. fetchPackageData
          (sample_host (serves repository_at_root) no_stats) ''widget'' (Some ''1.2.0'') = Inr result
        \<and> author (packageData result) = Some ''acme'')"
proof -
  let ?vd = "sample_version ''2.0.0'' None (Some ''git+https://github.com/acme/widget.git'')"
  let ?c = "''https://github.com/acme/widget''"
  have l: "dist_tags_latest authored = Some ''2.0.0''" "''2.0.0'' \<noteq> []"
    by (simp_all add: authored_def sample_document_def)
  have t: "(None = Some ''2.0.0'' \<and> ''2.0.0'' \<noteq> [])
      \<or> (((None :: string option) = None \<or> None = Some []) \<and> ''2.0.0'' = ''2.0.0'')"
    by simp
  have sel: "map_of (versions authored) ''2.0.0'' = Some ?vd"
    by (simp add: authored_def sample_document_def)
  have na: "v_author ?vd = None"
    by (simp add: sample_version_def)
  have ru: "(\<exists>r. v_repository ?vd = Some r \<and> url r = ''git+https://github.com/acme/widget.git'')
         \<or> ((v_repository ?vd = None \<or> (\<exists>r. v_repository ?vd = Some r \<and> url r = []))
             \<and> (\<exists>r. r_repository authored = Some r
                   \<and> url r = ''git+https://github.com/acme/widget.git''))"
    by (simp add: sample_version_def)
  have u: "''git+https://github.com/acme/widget.git'' = ''git+'' @ ?c @ ''.git''"
    by simp
  have g: "''git+'' = ''git+''
      \<or> (''git+'' = [] \<and> take 4 ''git+https://github.com/acme/widget.git'' \<noteq> ''git+'')"
    by simp
  have d: "''.git'' = ''.git'' \<or> (''.git'' = [] \<and> (\<forall>x. ?c \<noteq> x @ ''.git''))"
    by simp
  have p: "github_pattern_at ''acme'' (drop 8 ?c)"
    by (simp add: githubMatchAt_pattern [symmetric] githubMatchAt_def startsWith_def)
  have first: "\<forall>j<8. \<forall>o'. \<not> github_pattern_at o' (drop j ?c)"
  proof (intro allI impI)
    fix j :: nat and o' :: string
    assume "j < 8"
    then consider "j = 0" | "j = 1" | "j = 2" | "j = 3" | "j = 4" | "j = 5" | "j = 6" | "j = 7"
      by linarith
    then show "\<not> github_pattern_at o' (drop j ?c)"
      by cases (simp_all add: githubMatchAt_pattern [symmetric] githubMatchAt_def startsWith_def)
  qed
  from github_owner_is_author [OF served_sample l t sel na ru u g d p] first
  have 1: "\<exists>result. fetchPackageData (sample_host (serves authored) no_stats) ''widget'' None = Inr result
        \<and> author (packageData result) = Some ''acme''"
    by blast
  let ?doc = "repository_at_root"
  let ?wd = "sample_version ''1.2.0'' None None"
  have l': "dist_tags_latest ?doc = Some ''2.0.0''" "''2.0.0'' \<noteq> []"
    by (simp_all add: repository_at_root_def four_versions_def sample_document_def)
  have t': "(Some ''1.2.0'' = Some ''1.2.0'' \<and> ''1.2.0'' \<noteq> [])
      \<or> ((Some ''1.2.0'' = None \<or> Some ''1.2.0'' = Some []) \<and> ''1.2.0'' = ''2.0.0'')"
    by simp
  have sel': "map_of (versions ?doc) ''1.2.0'' = Some ?wd"
    by (simp add: repository_at_root_def four_versions_def sample_document_def)
  have na': "v_author ?wd = None"
    by (simp add: sample_version_def)
  have ru': "(\<exists>r. v_repository ?wd = Some r \<and> url r = ?c)
         \<or> ((v_repository ?wd = None \<or> (\<exists>r. v_repository ?wd = Some r \<and> url r = []))
             \<and> (\<exists>r. r_repository ?doc = Some r \<and> url r = ?c))"
    by (simp add: sample_version_def repository_at_root_def)
  have u': "?c = [] @ ?c @ []"
    by simp
  have g': "[] = ''git+'' \<or> (([] :: string) = [] \<and> take 4 ?c \<noteq> ''git+'')"
    by simp
  have d': "[] = ''.git'' \<or> (([] :: string) = [] \<and> (\<forall>x. ?c \<noteq> x @ ''.git''))"
  proof -
    have "?c \<noteq> x @ ''.git''" for x
    proof
      assume "?c = x @ ''.git''"
      then have "rev ?c = rev (x @ ''.git'')" by (rule arg_cong)
      then show False by simp
    qed
    then show ?thesis by simp
  qed
  from github_owner_is_author [OF served_sample l' t' sel' na' ru' u' g' d' p] first
  have 2: "\<exists>result. fetchPackageData (sample_host (serves ?doc) no_stats) ''widget''
        (Some ''1.2.0'') = Inr result \<and> author (packageData result) = Some ''acme''"
    by blast
  from 1 2 show ?thesis by (rule conjI)
qed

subsection \<open>C6: the author is never empty\<close>

text \<open>
  C6: whenever resolution succeeds, the author field of the result is a non-empty string;
  when the author field of the record and the repository URL give nothing, or an empty
  string, it is the sentinel \<^verbatim>\<open>N/A\<close>.
\<close>

theorem author_never_empty:
  assumes "fetchPackageData h packageName requested = Inr result"
  shows "\<exists>a. author (packageData result) = Some a \<and> a \<noteq> []
     \<and> (\<forall>data latestVersion versionData.
           fetchDocument h packageName = Inr data
           \<and> dist_tags_latest data = Some latestVersion
           \<and> map_of (versions data) (versionToFetch latestVersion requested) = Some versionData
           \<and> \<not> truthy (authorFromRepo (authorFromField (v_author versionData))
                          (js_or (map_option url (v_repository versionData))
                                 (map_option url (r_repository data))))
           \<longrightarrow> a = ''N/A'')"
proof -
  from assms obtain data l e where sel:
    "fetchDocument h packageName = Inr data" "dist_tags_latest data = Some l" "l \<noteq> []"
    "get_property (versions data) (versionToFetch l requested) = Some e"
    by (rule fetchPackageData_InrE)
  let ?found = "authorFromRepo (authorFromField (read_field v_author e))
                  (js_or (map_option url (read_field v_repository e))
                         (map_option url (r_repository data)))"
  from found_author [OF sel] assms
  have au: "author (packageData result) = js_or ?found (Some ''N/A'')" by auto
  have ne: "\<exists>a. author (packageData result) = Some a \<and> a \<noteq> []"
  proof (cases "truthy ?found")
    case True
    then obtain a where "?found = Some a" "a \<noteq> []"
      by (auto simp: truthy_def split: option.splits)
    with au True show ?thesis by (simp add: js_or_def)
  next
    case False
    with au have "author (packageData result) = Some ''N/A''" by (simp add: js_or_def)
    then show ?thesis by simp
  qed
  have sentinel: "author (packageData result) = Some ''N/A''"
    if "fetchDocument h packageName = Inr data'" "dist_tags_latest data' = Some lv"
      "map_of (versions data') (versionToFetch lv requested) = Some vd"
      "\<not> truthy (authorFromRepo (authorFromField (v_author vd))
                   (js_or (map_option url (v_repository vd)) (map_option url (r_repository data'))))"
    for data' lv vd
  proof -
    from that(1) sel(1) have d: "data' = data" by simp
    with that(2) sel(2) have lv: "lv = l" by simp
    from get_property_own [OF that(3)] sel(4) have "e = Own vd" by (simp add: d lv)
    with that(4) have "\<not> truthy ?found" by (simp add: read_field_Own d)
    with au show ?thesis by (simp add: js_or_def)
  qed
  from ne obtain a where a: "author (packageData result) = Some a" "a \<noteq> []" by blast
  have "\<forall>data latestVersion versionData.
           fetchDocument h packageName = Inr data
           \<and> dist_tags_latest data = Some latestVersion
           \<and> map_of (versions data) (versionToFetch latestVersion requested) = Some versionData
           \<and> \<not> truthy (authorFromRepo (authorFromField (v_author versionData))
                          (js_or (map_option url (v_repository versionData))
                                 (map_option url (r_repository data))))
           \<longrightarrow> a = ''N/A''"
  proof (intro allI impI)
    fix data' lv vd
    assume "fetchDocument h packageName = Inr data'
           \<and> dist_tags_latest data' = Some lv
           \<and> map_of (versions data') (versionToFetch lv requested) = Some vd
           \<and> \<not> truthy (authorFromRepo (authorFromField (v_author vd))
                          (js_or (map_option url (v_repository vd))
                                 (map_option url (r_repository data'))))"
    then have "author (packageData result) = Some ''N/A''"
      by (intro sentinel [of data' lv vd]) simp_all
    with a(1) show "a = ''N/A''" by simp
  qed
  with a show ?thesis by (intro exI [of _ a] conjI)
qed

text \<open>The records of \<open>four_versions\<close> have neither author nor repository: the author is the sentinel.\<close>

theorem author_never_empty_witness:
  "\<exists>result. fetchPackageData (sample_host (serves four_versions) no_stats) ''widget'' None = Inr result
     \<and> author (packageData result) = Some ''N/A''"
proof -
  let ?h = "sample_host (serves four_versions) no_stats"
  let ?vd = "sample_version ''2.0.0'' None None"
  have l: "dist_tags_latest four_versions = Some ''2.0.0''" "''2.0.0'' \<noteq> []"
    by (simp_all add: four_versions_def sample_document_def)
  have sel: "map_of (versions four_versions) (versionToFetch ''2.0.0'' None) = Some ?vd"
    by (simp add: four_versions_def sample_document_def versionToFetch_def)
  from fetchPackageData_resolved [OF served_sample l sel]
  obtain result where res: "fetchPackageData ?h ''widget'' None = Inr result" by blast
  have no_author: "\<not> truthy (authorFromRepo (authorFromField (v_author ?vd))
      (js_or (map_option url (v_repository ?vd)) (map_option url (r_repository four_versions))))"
    by (simp add: sample_version_def authorFromField_def authorFromRepo_def js_or_def
        four_versions_def sample_document_def)
  from author_never_empty [OF res] obtain a where
    a: "author (packageData result) = Some a"
    and s: "\<forall>data latestVersion versionData.
           fetchDocument ?h ''widget'' = Inr data
           \<and> dist_tags_latest data = Some latestVersion
           \<and> map_of (versions data) (versionToFetch latestVersion None) = Some versionData
           \<and> \<not> truthy (authorFromRepo (authorFromField (v_author versionData))
                          (js_or (map_option url (v_repository versionData))
                                 (map_option url (r_repository data))))
           \<longrightarrow> a = ''N/A''"
    by blast
  have "fetchDocument ?h ''widget'' = Inr four_versions
      \<and> dist_tags_latest four_versions = Some ''2.0.0''
      \<and> map_of (versions four_versions) (versionToFetch ''2.0.0'' None) = Some ?vd
      \<and> \<not> truthy (authorFromRepo (authorFromField (v_author ?vd))
            (js_or (map_option url (v_repository ?vd)) (map_option url (r_repository four_versions))))"
    using served_sample [of four_versions no_stats "''widget''"] l(1) sel no_author
    by (intro conjI)
  then have "a = ''N/A''" by (rule s [rule_format])
  with res a show ?thesis by blast
qed

subsection \<open>C7: failures of the downloads request\<close>

text \<open>
  C7: whatever way the downloads request fails (a 404, another status outside 200..299,
  no response, a body that is not JSON), resolution succeeds whenever the document fetch
  and the normalisation do, with the weekly downloads absent; a downloads failure is never
  an error of the pipeline. Stated against any other outcome \<open>d\<close> of the downloads
  request: under a failing downloads request the pipeline fails with the same error as
  under \<open>d\<close>, or returns the result it returns under \<open>d\<close> with the weekly downloads
  absent.
\<close>

theorem downloads_failure_is_absence:
  assumes "download_failure
             (fetch_downloads h (''https://api.npmjs.org/downloads/point/last-week/'' @ packageName))"
  shows "(case fetchPackageData (h\<lparr>fetch_downloads := d\<rparr>) packageName requested of
            Inl e \<Rightarrow> fetchPackageData h packageName requested = Inl e
          | Inr result \<Rightarrow>
              fetchPackageData h packageName requested
                = Inr (result\<lparr>packageData := (packageData result)\<lparr>downloadsLastWeek := None\<rparr>\<rparr>))
     \<and> (fetchDocument h packageName = Inr data \<and> dist_tags_latest data = Some latestVersion
          \<and> latestVersion \<noteq> []
          \<and> map_of (versions data) (versionToFetch latestVersion requested) = Some versionData
        \<longrightarrow> (\<exists>result. fetchPackageData h packageName requested = Inr result
                \<and> downloadsLastWeek (packageData result) = None))"
proof -
  have absent: "fetchPackageDownloads h packageName = None"
    using assms by (rule fetchPackageDownloads_failure)
  have 1: "case fetchPackageData (h\<lparr>fetch_downloads := d\<rparr>) packageName requested of
            Inl e \<Rightarrow> fetchPackageData h packageName requested = Inl e
          | Inr result \<Rightarrow>
              fetchPackageData h packageName requested
                = Inr (result\<lparr>packageData := (packageData result)\<lparr>downloadsLastWeek := None\<rparr>\<rparr>)"
  proof (cases "fetchPackageData (h\<lparr>fetch_downloads := d\<rparr>) packageName requested")
    case (Inl e)
    from fetchPackageData_Inl_downloads_update [OF Inl, of "fetch_downloads h"] Inl
    show ?thesis by simp
  next
    case (Inr result)
    from fetchPackageData_Inr_downloads_update [OF Inr] Inr absent
    show ?thesis by simp
  qed
  have 2: "\<exists>result. fetchPackageData h packageName requested = Inr result
      \<and> downloadsLastWeek (packageData result) = None"
    if "fetchDocument h packageName = Inr data" "dist_tags_latest data = Some latestVersion"
      "latestVersion \<noteq> []"
      "map_of (versions data) (versionToFetch latestVersion requested) = Some versionData"
    by (simp add: fetchPackageData_resolved [OF that] absent)
  from 1 2 show ?thesis by blast
qed

text \<open>Each kind of failure is a \<open>download_failure\<close>; with the downloads endpoint answering 404, \<open>four_versions\<close> resolves without weekly downloads.\<close>

theorem downloads_failure_is_absence_witness:
  "download_failure no_stats
   \<and> download_failure (Inr (Response 500 ''Internal Server Error'' (Inl ''Unexpected token'')))
   \<and> download_failure (Inl ''Failed to fetch'')
   \<and> download_failure (Inr (Response 200 ''OK'' (Inl ''Unexpected end of JSON input'')))
   \<and> (\<exists>result. fetchPackageData (sample_host (serves four_versions) no_stats) ''widget'' None
                  = Inr result
          \<and> downloadsLastWeek (packageData result) = None)"
proof -
  let ?h = "sample_host (serves four_versions) no_stats"
  have l: "dist_tags_latest four_versions = Some ''2.0.0''" "''2.0.0'' \<noteq> []"
    by (simp_all add: four_versions_def sample_document_def)
  have sel: "map_of (versions four_versions) (versionToFetch ''2.0.0'' None)
      = Some (sample_version ''2.0.0'' None None)"
    by (simp add: four_versions_def sample_document_def versionToFetch_def)
  have f: "download_failure no_stats"
    by (simp add: download_failure_def no_stats_def)
  then have f': "download_failure
      (fetch_downloads ?h (''https://api.npmjs.org/downloads/point/last-week/'' @ ''widget''))"
    by (simp add: sample_host_def)
  have "fetchDocument ?h ''widget'' = Inr four_versions
      \<and> dist_tags_latest four_versions = Some ''2.0.0'' \<and> ''2.0.0'' \<noteq> []
      \<and> map_of (versions four_versions) (versionToFetch ''2.0.0'' None)
          = Some (sample_version ''2.0.0'' None None)"
    using served_sample [of four_versions no_stats "''widget''"] l sel by (intro conjI)
  with downloads_failure_is_absence [OF f', where requested = None and data = four_versions
      and latestVersion = "''2.0.0''" and versionData = "sample_version ''2.0.0'' None None"]
  have "\<exists>result. fetchPackageData ?h ''widget'' None = Inr result
          \<and> downloadsLastWeek (packageData result) = None"
    by blast
  moreover have "download_failure (Inr (Response 500 ''Internal Server Error'' (Inl ''Unexpected token'')))"
    "download_failure (Inl ''Failed to fetch'')"
    "download_failure (Inr (Response 200 ''OK'' (Inl ''Unexpected end of JSON input'')))"
    by (simp_all add: download_failure_def ok_def)
  ultimately show ?thesis using f by blast
qed

subsection \<open>C8: a requested version that the document does not have\<close>

text \<open>
  C8 says that for every registry document and every requested version that is no key of
  \<open>versions\<close>, resolution fails with VersionNotFound, naming version and package, and
  returns no package.

  The latest tag is checked first: on the document \<open>untagged\<close> the request for 99.0.0
  fails with NoLatestTag. And the empty string is no request at all
  (\<^verbatim>\<open>version || latestVersion\<close>): on \<open>four_versions\<close>, which has no key \<^verbatim>\<open>""\<close>,
  the request for \<^verbatim>\<open>""\<close> resolves to the latest version. Besides,
  \<^verbatim>\<open>data.versions[versionToFetch]\<close> finds what every object inherits: the request for
  \<^verbatim>\<open>constructor\<close> on \<open>four_versions\<close> returns a package named \<^verbatim>\<open>Object\<close> without version.
\<close>

theorem missing_version_counterexample:
  "''99.0.0'' \<notin> set (map fst (versions untagged))
   \<and> fetchPackageData (sample_host (serves untagged) no_stats) ''widget'' (Some ''99.0.0'')
      = Inl (NoLatestTag (''Could not determine latest version for package '' @ [dq] @ ''widget''
                           @ [dq] @ ''.''))
   \<and> '''' \<notin> set (map fst (versions four_versions))
   \<and> (\<exists>result. fetchPackageData (sample_host (serves four_versions) no_stats) ''widget'' (Some '''')
                  = Inr result)
   \<and> ''constructor'' \<notin> set (map fst (versions four_versions))
   \<and> map_sum id (\<lambda>r. (name (packageData r), version (packageData r)))
        (fetchPackageData (sample_host (serves four_versions) no_stats) ''widget''
           (Some ''constructor''))
      = Inr (Some ''Object'', None)"
proof -
  have l: "dist_tags_latest four_versions = Some ''2.0.0''" "''2.0.0'' \<noteq> []"
    by (simp_all add: four_versions_def sample_document_def)
  have sel: "map_of (versions four_versions) (versionToFetch ''2.0.0'' (Some ''''))
      = Some (sample_version ''2.0.0'' None None)"
    by (simp add: four_versions_def sample_document_def versionToFetch_def)
  from fetchPackageData_resolved [OF served_sample l sel]
  have 1: "\<exists>result. fetchPackageData (sample_host (serves four_versions) no_stats) ''widget'' (Some '''')
                  = Inr result"
    by blast
  have 2: "fetchPackageData (sample_host (serves untagged) no_stats) ''widget'' (Some ''99.0.0'')
      = Inl (NoLatestTag (''Could not determine latest version for package '' @ [dq] @ ''widget''
                           @ [dq] @ ''.''))"
    by (simp add: fetchPackageData_def served_sample untagged_def sample_document_def)
  have 3: "''99.0.0'' \<notin> set (map fst (versions untagged))"
    "'''' \<notin> set (map fst (versions four_versions))"
    "''constructor'' \<notin> set (map fst (versions four_versions))"
    by (simp_all add: untagged_def four_versions_def sample_document_def)
  have inh: "get_property (versions four_versions) (versionToFetch ''2.0.0'' (Some ''constructor''))
      = Some (Inherited ''constructor'')"
    by (simp add: get_property_def inherits_def object_prototype_def four_versions_def
        sample_document_def versionToFetch_def)
  have 4: "map_sum id (\<lambda>r. (name (packageData r), version (packageData r)))
        (fetchPackageData (sample_host (serves four_versions) no_stats) ''widget''
           (Some ''constructor''))
      = Inr (Some ''Object'', None)"
    by (simp add: fetchPackageData_found [OF served_sample l inh] read_name_def read_field_def
        object_prototype_def)
  from 1 2 3 4 show ?thesis by (intro conjI)
qed

text \<open>
  C8 as amended: for every registry document with a non-empty latest tag and every
  non-empty requested version that is neither a key of \<open>versions\<close> nor the name of a
  property that every object inherits from \<^verbatim>\<open>Object.prototype\<close>, resolution fails with
  VersionNotFound, whose message names the version and the package, and returns no
  package.
\<close>

theorem missing_version_fails:
  assumes "fetchDocument h packageName = Inr data"
    and "dist_tags_latest data = Some latestVersion" "latestVersion \<noteq> []"
    and "v \<noteq> []" "v \<notin> set (map fst (versions data))" "\<not> inherits v"
  shows "fetchPackageData h packageName (Some v)
           = Inl (VersionNotFound (''Could not find data for version '' @ [dq] @ v @ [dq]
                    @ '' of package '' @ [dq] @ packageName @ [dq] @ ''.''))
     \<and> (\<forall>result. fetchPackageData h packageName (Some v) \<noteq> Inr result)"
proof -
  from assms(4) have t: "versionToFetch latestVersion (Some v) = v"
    by (simp add: versionToFetch_def)
  from assms(5,6) have "versionToFetch latestVersion (Some v) \<notin> set (map fst (versions data))"
    "\<not> inherits (versionToFetch latestVersion (Some v))"
    unfolding t by simp_all
  from target_not_found [OF assms(1-3) this]
  have "fetchPackageData h packageName (Some v)
           = Inl (VersionNotFound (''Could not find data for version '' @ [dq] @ v @ [dq]
                    @ '' of package '' @ [dq] @ packageName @ [dq] @ ''.''))"
    by (simp only: t)
  then show ?thesis by simp
qed

text \<open>On \<open>four_versions\<close>, the request for 99.0.0 fails with VersionNotFound.\<close>

theorem missing_version_fails_witness:
  "fetchPackageData (sample_host (serves four_versions) no_stats) ''widget'' (Some ''99.0.0'')
     = Inl (VersionNotFound (''Could not find data for version '' @ [dq] @ ''99.0.0'' @ [dq]
              @ '' of package '' @ [dq] @ ''widget'' @ [dq] @ ''.''))"
proof -
  have l: "dist_tags_latest four_versions = Some ''2.0.0''" "''2.0.0'' \<noteq> []"
    by (simp_all add: four_versions_def sample_document_def)
  have v: "''99.0.0'' \<noteq> []" "''99.0.0'' \<notin> set (map fst (versions four_versions))"
    "\<not> inherits ''99.0.0''"
    by (simp_all add: four_versions_def sample_document_def inherits_def object_prototype_def)
  from missing_version_fails [OF served_sample l v] show ?thesis by (rule conjunct1)
qed

subsection \<open>C9: failures of the document request\<close>

text \<open>
  C9: when the registry answers with a status outside 200..299, resolution fails: with
  NotFound and a message naming the package when the status is 404, and with
  TransportError carrying the status text of the response in every other case.
\<close>

theorem document_fetch_failures:
  assumes "fetch_registry h (''https://registry.npmjs.org/'' @ packageName) = Inr response"
    and "\<not> ok response"
  shows "fetchPackageData h packageName requested =
     (if status response = 404
      then Inl (NotFound (''Package '' @ [dq] @ packageName @ [dq] @ '' not found.''))
      else Inl (TransportError (''Failed to fetch package data: '' @ statusText response)))"
  using assms by (simp add: fetchPackageData_def fetchDocument_def)

text \<open>A 404 and a 503 from the registry.\<close>

theorem document_fetch_failures_witness:
  "fetchPackageData (sample_host (Inr (Response 404 ''Not Found'' (Inl ''''))) no_stats)
                    ''widget'' None
     = Inl (NotFound (''Package '' @ [dq] @ ''widget'' @ [dq] @ '' not found.''))
   \<and> fetchPackageData (sample_host (Inr (Response 503 ''Service Unavailable'' (Inl ''''))) no_stats)
                      ''widget'' None
     = Inl (TransportError ''Failed to fetch package data: Service Unavailable'')"
proof -
  have 1: "fetch_registry (sample_host (Inr (Response 404 ''Not Found'' (Inl ''''))) no_stats)
      (''https://registry.npmjs.org/'' @ ''widget'') = Inr (Response 404 ''Not Found'' (Inl ''''))"
    "\<not> ok (Response 404 ''Not Found'' (Inl '''') :: NpmRegistryResponse response)"
    by (simp_all add: sample_host_def ok_def)
  have 2: "fetch_registry (sample_host (Inr (Response 503 ''Service Unavailable'' (Inl ''''))) no_stats)
      (''https://registry.npmjs.org/'' @ ''widget'')
      = Inr (Response 503 ''Service Unavailable'' (Inl ''''))"
    "\<not> ok (Response 503 ''Service Unavailable'' (Inl '''') :: NpmRegistryResponse response)"
    by (simp_all add: sample_host_def ok_def)
  from document_fetch_failures [OF 1, of None] document_fetch_failures [OF 2, of None]
  show ?thesis by simp
qed

subsection \<open>C10: the empty string as requested version\<close>

text \<open>
  C10: resolving with the requested version \<^verbatim>\<open>""\<close> is resolving with no requested
  version. For a document whose latest tag is present and not empty it is resolving the
  version that the tag names: it returns the record that \<open>versions\<close> has under the latest
  tag, fails with VersionNotFound for the latest tag when that is neither a key of
  \<open>versions\<close> nor a name inherited from \<^verbatim>\<open>Object.prototype\<close>, and on no host and no
  document does it fail with VersionNotFound for \<^verbatim>\<open>""\<close>.
\<close>

theorem empty_version_is_absent:
  "fetchPackageData h packageName (Some '''') = fetchPackageData h packageName None
   \<and> fetchPackageData h packageName (Some '''')
       \<noteq> Inl (VersionNotFound (''Could not find data for version '' @ [dq] @ '''' @ [dq]
                @ '' of package '' @ [dq] @ packageName @ [dq] @ ''.''))
   \<and> (fetchDocument h packageName = Inr data \<and> dist_tags_latest data = Some latestVersion
        \<and> latestVersion \<noteq> []
      \<longrightarrow> fetchPackageData h packageName (Some '''')
            = fetchPackageData h packageName (Some latestVersion)
         \<and> (\<forall>versionData. map_of (versions data) latestVersion = Some versionData
               \<longrightarrow> (\<exists>result. fetchPackageData h packageName (Some '''') = Inr result
                      \<and> name (packageData result) = Some (v_name versionData)
                      \<and> version (packageData result) = Some (v_version versionData)
                      \<and> description (packageData result) = v_description versionData
                      \<and> license (packageData result) = v_license versionData
                      \<and> dependencies (packageData result) = v_dependencies versionData
                      \<and> devDependencies (packageData result) = v_devDependencies versionData))
         \<and> (latestVersion \<notin> set (map fst (versions data)) \<and> \<not> inherits latestVersion
               \<longrightarrow> fetchPackageData h packageName (Some '''')
                   = Inl (VersionNotFound (''Could not find data for version '' @ [dq]
                            @ latestVersion @ [dq] @ '' of package '' @ [dq] @ packageName
                            @ [dq] @ ''.''))))"
proof (intro conjI impI allI)
  have eq: "versionToFetch l (Some []) = versionToFetch l None" for l
    by (simp add: versionToFetch_def)
  show "fetchPackageData h packageName (Some '''') = fetchPackageData h packageName None"
    unfolding fetchPackageData_def eq by (rule refl)
  show "fetchPackageData h packageName (Some '''')
       \<noteq> Inl (VersionNotFound (''Could not find data for version '' @ [dq] @ '''' @ [dq]
                @ '' of package '' @ [dq] @ packageName @ [dq] @ ''.''))"
  proof (cases "fetchPackageData h packageName (Some '''')")
    case (Inr result)
    then show ?thesis by simp
  next
    case (Inl e)
    show ?thesis
    proof (cases "fetchDocument h packageName")
      case (Inl e')
      then have "fetchPackageData h packageName (Some '''') = Inl e'"
        by (simp add: fetchPackageData_def)
      moreover from Inl have "\<forall>m. e' \<noteq> VersionNotFound m"
        by (auto simp: fetchDocument_def split: sum.splits if_splits)
      ultimately show ?thesis by simp
    next
      case (Inr data)
      show ?thesis
      proof (cases "truthy (dist_tags_latest data)")
        case False
        with Inr show ?thesis
          by (simp add: fetchPackageData_def truthy_def split: option.splits)
      next
        case True
        then obtain l where l: "dist_tags_latest data = Some l" "l \<noteq> []"
          by (auto simp: truthy_def split: option.splits)
        show ?thesis
        proof (cases "get_property (versions data) (versionToFetch l (Some ''''))")
          case (Some entry)
          from fetchPackageData_found [OF Inr l Some] show ?thesis by simp
        next
          case None
          with Inr l have "fetchPackageData h packageName (Some '''')
              = Inl (VersionNotFound (''Could not find data for version '' @ [dq] @ l @ [dq]
                       @ '' of package '' @ [dq] @ packageName @ [dq] @ ''.''))"
            by (simp add: fetchPackageData_def versionToFetch_def)
          moreover have "''Could not find data for version '' @ [dq] @ l @ [dq]
                       @ '' of package '' @ [dq] @ packageName @ [dq] @ ''.''
              \<noteq> ''Could not find data for version '' @ [dq] @ '''' @ [dq]
                       @ '' of package '' @ [dq] @ packageName @ [dq] @ ''.''"
            using not_found_message_inject [of l packageName "''''"] l(2) by blast
          ultimately show ?thesis by simp
        qed
      qed
    qed
  qed
next
  assume a: "fetchDocument h packageName = Inr data \<and> dist_tags_latest data = Some latestVersion
        \<and> latestVersion \<noteq> []"
  then have doc: "fetchDocument h packageName = Inr data"
    and l: "dist_tags_latest data = Some latestVersion" "latestVersion \<noteq> []"
    by simp_all
  from l(2) have "versionToFetch latestVersion (Some '''')
      = versionToFetch latestVersion (Some latestVersion)"
    by (simp add: versionToFetch_def)
  with doc l show "fetchPackageData h packageName (Some '''')
      = fetchPackageData h packageName (Some latestVersion)"
    by (rule same_target)
next
  fix versionData
  assume a: "fetchDocument h packageName = Inr data \<and> dist_tags_latest data = Some latestVersion
        \<and> latestVersion \<noteq> []"
    and rec: "map_of (versions data) latestVersion = Some versionData"
  from a have doc: "fetchDocument h packageName = Inr data"
    and l: "dist_tags_latest data = Some latestVersion" "latestVersion \<noteq> []"
    by simp_all
  from rec have "map_of (versions data) (versionToFetch latestVersion (Some '''')) = Some versionData"
    by (simp add: versionToFetch_def)
  with doc l show "\<exists>result. fetchPackageData h packageName (Some '''') = Inr result
                      \<and> name (packageData result) = Some (v_name versionData)
                      \<and> version (packageData result) = Some (v_version versionData)
                      \<and> description (packageData result) = v_description versionData
                      \<and> license (packageData result) = v_license versionData
                      \<and> dependencies (packageData result) = v_dependencies versionData
                      \<and> devDependencies (packageData result) = v_devDependencies versionData"
    by (rule resolved_fields)
next
  assume a: "fetchDocument h packageName = Inr data \<and> dist_tags_latest data = Some latestVersion
        \<and> latestVersion \<noteq> []"
    and miss: "latestVersion \<notin> set (map fst (versions data)) \<and> \<not> inherits latestVersion"
  from a have doc: "fetchDocument h packageName = Inr data"
    and l: "dist_tags_latest data = Some latestVersion" "latestVersion \<noteq> []"
    by simp_all
  have t: "versionToFetch latestVersion (Some '''') = latestVersion"
    by (simp add: versionToFetch_def)
  from miss have "versionToFetch latestVersion (Some '''') \<notin> set (map fst (versions data))"
    "\<not> inherits (versionToFetch latestVersion (Some ''''))"
    unfolding t by simp_all
  from target_not_found [OF doc l this]
  show "fetchPackageData h packageName (Some '''')
      = Inl (VersionNotFound (''Could not find data for version '' @ [dq]
               @ latestVersion @ [dq] @ '' of package '' @ [dq] @ packageName @ [dq] @ ''.''))"
    by (simp only: t)
qed

text \<open>
  On \<open>four_versions\<close>, whose latest tag is 2.0.0, the request for \<^verbatim>\<open>""\<close> and no request
  resolve to the same result, of version 2.0.0.
\<close>

theorem empty_version_is_absent_witness:
  "\<exists>result. fetchPackageData (sample_host (serves four_versions) no_stats) ''widget'' (Some '''')
               = Inr result
     \<and> fetchPackageData (sample_host (serves four_versions) no_stats) ''widget'' None = Inr result
     \<and> version (packageData result) = Some ''2.0.0''"
proof -
  let ?h = "sample_host (serves four_versions) no_stats"
  note e = empty_version_is_absent [of ?h "''widget''" four_versions "''2.0.0''"]
  have pre: "fetchDocument ?h ''widget'' = Inr four_versions
      \<and> dist_tags_latest four_versions = Some ''2.0.0'' \<and> ''2.0.0'' \<noteq> []"
    by (simp add: served_sample four_versions_def sample_document_def)
  have rec: "map_of (versions four_versions) ''2.0.0'' = Some (sample_version ''2.0.0'' None None)"
    by (simp add: four_versions_def sample_document_def)
  from e [THEN conjunct2, THEN conjunct2, rule_format, OF pre, THEN conjunct2, THEN conjunct1,
      rule_format, OF rec]
  obtain result where res: "fetchPackageData ?h ''widget'' (Some '''') = Inr result"
    and v: "version (packageData result) = Some (v_version (sample_version ''2.0.0'' None None))"
    by blast
  from v have "version (packageData result) = Some ''2.0.0''" by (simp add: sample_version_def)
  moreover from e [THEN conjunct1] res
  have "fetchPackageData ?h ''widget'' None = Inr result" by simp
  ultimately show ?thesis using res by (intro exI [of _ result] conjI)
qed

end
